theory Spec2Isabelle
  imports Complex_Main "HOL-Library.Sublist"
begin

section \<open>Python values\<close>

text \<open>
  Dictionaries exchanged with the recommendation oracle are association lists from keys
  to JSON values, in insertion order. Text is a list of bytes: a letter outside ASCII is
  written as its UTF-8 bytes. Numbers are exact rationals, so that \<^verbatim>\<open>5 == 5.0\<close>
  holds as it does in Python.
\<close>

datatype json =
    JNull
  | JBool bool
  | JNum rat
  | JStr string
  | JArr "json list"
  | JObj "(string \<times> json) list"

type_synonym pydict = "(string \<times> json) list"

datatype py_exception = JSONDecodeError | OtherException

definition has_key :: "string \<Rightarrow> pydict \<Rightarrow> bool" where
  "has_key k d = (map_of d k \<noteq> None)"

definition dict_get :: "pydict \<Rightarrow> string \<Rightarrow> json" where
  "dict_get d k = (case map_of d k of None \<Rightarrow> JNull | Some v \<Rightarrow> v)"

definition dict_get_default :: "pydict \<Rightarrow> string \<Rightarrow> json \<Rightarrow> json" where
  "dict_get_default d k dflt = (case map_of d k of None \<Rightarrow> dflt | Some v \<Rightarrow> v)"

fun dict_set :: "string \<Rightarrow> json \<Rightarrow> pydict \<Rightarrow> pydict" where
  "dict_set k v [] = [(k, v)]"
| "dict_set k v (p # ps) = (if fst p = k then (k, v) # ps else p # dict_set k v ps)"

text \<open>\<^verbatim>\<open>value == n\<close> for a JSON value and an integer; \<^verbatim>\<open>True == 1\<close> in Python.\<close>

fun py_eq_int :: "json \<Rightarrow> int \<Rightarrow> bool" where
  "py_eq_int (JNum r) n = (r = of_int n)"
| "py_eq_int (JBool b) n = (n = (if b then 1 else 0))"
| "py_eq_int _ n = False"

definition json_of_int_opt :: "int option \<Rightarrow> json" where
  "json_of_int_opt x = (case x of None \<Rightarrow> JNull | Some n \<Rightarrow> JNum (of_int n))"

definition json_of_str_opt :: "string option \<Rightarrow> json" where
  "json_of_str_opt x = (case x of None \<Rightarrow> JNull | Some s \<Rightarrow> JStr s)"

text \<open>
  \<^verbatim>\<open>str.strip()\<close> removes white space at both ends: the ASCII blanks, and the code
  points U+0085, U+00A0, U+1680, U+2000 to U+200A, U+2028, U+2029, U+202F, U+205F and
  U+3000, which take two or three bytes each in UTF-8.
\<close>

definition is_ascii_space :: "char \<Rightarrow> bool" where
  "is_ascii_space c = (c \<in> set [CHR 0x09, CHR 0x0A, CHR 0x0B, CHR 0x0C, CHR 0x0D,
                                CHR 0x1C, CHR 0x1D, CHR 0x1E, CHR 0x1F, CHR 0x20])"

definition py_wide_spaces :: "string list" where
  "py_wide_spaces =
     [ [CHR 0xC2, CHR 0x85], [CHR 0xC2, CHR 0xA0], [CHR 0xE1, CHR 0x9A, CHR 0x80],
      [CHR 0xE2, CHR 0x80, CHR 0x80], [CHR 0xE2, CHR 0x80, CHR 0x81],
      [CHR 0xE2, CHR 0x80, CHR 0x82], [CHR 0xE2, CHR 0x80, CHR 0x83],
      [CHR 0xE2, CHR 0x80, CHR 0x84], [CHR 0xE2, CHR 0x80, CHR 0x85],
      [CHR 0xE2, CHR 0x80, CHR 0x86], [CHR 0xE2, CHR 0x80, CHR 0x87],
      [CHR 0xE2, CHR 0x80, CHR 0x88], [CHR 0xE2, CHR 0x80, CHR 0x89],
      [CHR 0xE2, CHR 0x80, CHR 0x8A], [CHR 0xE2, CHR 0x80, CHR 0xA8],
      [CHR 0xE2, CHR 0x80, CHR 0xA9], [CHR 0xE2, CHR 0x80, CHR 0xAF],
      [CHR 0xE2, CHR 0x81, CHR 0x9F], [CHR 0xE3, CHR 0x80, CHR 0x80] ]"

text \<open>
  The number of bytes of the white space code point at the head of a text, zero when
  there is none; \<open>wide\<close> lists the multi-byte ones as they read from that end.
\<close>

definition space_width :: "string list \<Rightarrow> string \<Rightarrow> nat" where
  "space_width wide s =
     (case s of
        [] \<Rightarrow> 0
      | c # cs \<Rightarrow>
          if is_ascii_space c then 1
          else (case find (\<lambda>w. w \<noteq> [] \<and> prefix w s) wide of None \<Rightarrow> 0 | Some w \<Rightarrow> length w))"

function lstrip_by :: "string list \<Rightarrow> string \<Rightarrow> string" where
  "lstrip_by wide s =
     (if space_width wide s = 0 then s else lstrip_by wide (drop (space_width wide s) s))"
  by pat_completeness auto
termination
proof (relation "measure (\<lambda>(wide, s). length s)")
  show "wf (measure (\<lambda>(wide, s). length s))" by simp
next
  fix wide :: "string list" and s :: string
  assume "space_width wide s \<noteq> 0"
  moreover from this have "s \<noteq> []" by (auto simp: space_width_def)
  ultimately show "((wide, drop (space_width wide s) s), (wide, s)) \<in> measure (\<lambda>(wide, s). length s)"
    by simp
qed

definition py_strip :: "string \<Rightarrow> string" where
  "py_strip s = rev (lstrip_by (map rev py_wide_spaces) (rev (lstrip_by py_wide_spaces s)))"

text \<open>
  \<^verbatim>\<open>min(first, *rest, key=key)\<close>: the running minimum is replaced only by a
  strictly smaller key, so the earliest minimal element is returned.
\<close>

fun py_min :: "('a \<Rightarrow> 'b::linorder) \<Rightarrow> 'a \<Rightarrow> 'a list \<Rightarrow> 'a" where
  "py_min key best [] = best"
| "py_min key best (x # xs) = (if key x < key best then py_min key x xs else py_min key best xs)"

section \<open>Data model\<close>

text \<open>
  The tables of \<^verbatim>\<open>app/models\<close>. Hours are exact rationals: the column
  \<^verbatim>\<open>current_workload\<close> is declared an integer, but the services add and subtract
  the float column \<^verbatim>\<open>estimated_hours\<close> to it, so fractional loads occur. Float
  rounding and the store's coercion of the column are not modelled. Time stamps are
  seconds. The text column \<^verbatim>\<open>required_skills\<close> holds the decoded list, and the two
  recommendation columns of a task hold the value assigned to them as it is.
\<close>

datatype UserRole = COLABORADOR | GESTOR | ADMIN

record user =
  user_id :: int
  username :: string
  full_name :: string
  email :: string
  position :: "string option"
  department :: "string option"
  role :: UserRole
  is_active :: bool
  manager_id :: "int option"
  workload_capacity :: int
  current_workload :: rat

datatype TaskStatus = PENDING | IN_PROGRESS | COMPLETED | CANCELLED | BLOCKED

datatype TaskPriority = LOW | MEDIUM | HIGH | URGENT

record task =
  task_id :: int
  title :: string
  description :: "string option"
  status :: TaskStatus
  priority :: TaskPriority
  assigned_to :: "int option"
  created_by :: int
  estimated_hours :: "rat option"
  actual_hours :: rat
  required_skills :: "string list"
  due_date :: "int option"
  started_at :: "int option"
  completed_at :: "int option"
  ai_match_score :: json
  ai_recommendation_reason :: json

datatype MoodLevel = VERY_BAD | BAD | NEUTRAL | GOOD | VERY_GOOD

datatype EnergyLevel = EXHAUSTED | LOW_ENERGY | MEDIUM_ENERGY | HIGH_ENERGY | VERY_HIGH

record wellbeing_check =
  check_id :: int
  check_user_id :: int
  mood :: MoodLevel
  energy :: EnergyLevel
  check_notes :: "string option"
  ai_sentiment_score :: "int option"
  ai_burnout_risk :: "int option"
  created_at :: int

text \<open>
  The store: one list of rows per table, in storage order. \<^verbatim>\<open>user_skills\<close> is the
  join of the two skill tables, a user id with a skill name.
\<close>

record db =
  users :: "user list"
  tasks :: "task list"
  checks :: "wellbeing_check list"
  user_skills :: "(int \<times> string) list"

definition update_user :: "int \<Rightarrow> (user \<Rightarrow> user) \<Rightarrow> user list \<Rightarrow> user list" where
  "update_user uid f us = map (\<lambda>u. if user_id u = uid then f u else u) us"

definition update_task_row :: "int \<Rightarrow> (task \<Rightarrow> task) \<Rightarrow> task list \<Rightarrow> task list" where
  "update_task_row tid f ts = map (\<lambda>t. if task_id t = tid then f t else t) ts"

text \<open>Truthiness of an optional number: \<^verbatim>\<open>None\<close> and zero are false.\<close>

definition truthy :: "'a::zero option \<Rightarrow> bool" where
  "truthy x = (case x of None \<Rightarrow> False | Some v \<Rightarrow> v \<noteq> 0)"

definition seconds_per_day :: int where
  "seconds_per_day = 86400"

section \<open>Workload model (\<^verbatim>\<open>app/models/user.py\<close>)\<close>

definition workload_percentage :: "'a user_scheme \<Rightarrow> rat" where
  "workload_percentage u =
     (if workload_capacity u = 0 then 0
      else (current_workload u / of_int (workload_capacity u)) * 100)"

definition is_overloaded :: "'a user_scheme \<Rightarrow> bool" where
  "is_overloaded u = (workload_percentage u > 90)"

definition available_hours :: "'a user_scheme \<Rightarrow> rat" where
  "available_hours u = max 0 (of_int (workload_capacity u) - current_workload u)"

section \<open>Recommendation oracle client (\<^verbatim>\<open>app/services/gemini_service.py\<close>)\<close>

text \<open>
  The dictionaries built by \<^verbatim>\<open>_prepare_task_data\<close>, \<^verbatim>\<open>_prepare_candidate_data\<close>
  and \<^verbatim>\<open>_get_team_context\<close>. The three candidate keys that the client reads
  with \<^verbatim>\<open>.get\<close> or by subscript may be absent (\<open>None\<close>).
\<close>

record task_data =
  td_id :: int
  td_title :: string
  td_description :: "string option"
  td_priority :: TaskPriority
  td_estimated_hours :: rat
  td_required_skills :: "string list"
  td_due_date :: "int option"

record candidate =
  cand_id :: "int option"
  cand_name :: "string option"
  cand_username :: string
  cand_position :: "string option"
  cand_skills :: "string list"
  cand_workload :: "rat option"
  cand_available_hours :: rat
  cand_energy :: EnergyLevel
  cand_mood :: MoodLevel

record team_context =
  ctx_team_size :: nat
  ctx_average_workload :: rat
  ctx_overloaded_count :: nat

text \<open>
  The oracle is \<^verbatim>\<open>self.model.generate_content(prompt)\<close> followed by
  \<^verbatim>\<open>response.text\<close>: given what the prompt is built from, it raises or replies
  with a text. \<^verbatim>\<open>json.loads\<close> is a parameter as well: it decodes a text to a
  dictionary or raises. A reply that decodes to anything but an object is outside the
  declared return type \<^verbatim>\<open>Dict[str, Any]\<close> and has no place in the model.
\<close>

type_synonym recommendation_oracle =
  "task_data \<Rightarrow> candidate list \<Rightarrow> team_context option \<Rightarrow> py_exception + string"

type_synonym json_loads = "string \<Rightarrow> py_exception + pydict"

definition msg_parse_error :: string where
  "msg_parse_error = ''Erro ao processar resposta da IA''"

definition msg_no_candidates :: string where
  "msg_no_candidates = ''Nenhum candidato dispon'' @ [CHR 0xC3, CHR 0xAD] @ ''vel''"

definition msg_fallback_reasoning :: string where
  "msg_fallback_reasoning =
     ''Sele'' @ [CHR 0xC3, CHR 0xA7, CHR 0xC3, CHR 0xA3] @ ''o autom'' @ [CHR 0xC3, CHR 0xA1]
     @ ''tica baseada em menor carga de trabalho (IA indispon'' @ [CHR 0xC3, CHR 0xAD] @ ''vel)''"

definition msg_fallback_pro :: string where
  "msg_fallback_pro = ''Menor carga atual''"

definition msg_fallback_con :: string where
  "msg_fallback_con =
     ''Recomenda'' @ [CHR 0xC3, CHR 0xA7, CHR 0xC3, CHR 0xA3] @ ''o sem an''
     @ [CHR 0xC3, CHR 0xA1] @ ''lise completa de IA''"

definition msg_fallback_warning :: string where
  "msg_fallback_warning =
     ''Sistema de IA temporariamente indispon'' @ [CHR 0xC3, CHR 0xAD] @ ''vel''"

definition strip_code_fences :: "string \<Rightarrow> string" where
  "strip_code_fences response_text =
     (let t0 = py_strip response_text;
          t1 = (if prefix ''```json'' t0 then drop 7 t0 else t0);
          t2 = (if prefix ''```'' t1 then drop 3 t1 else t1);
          t3 = (if suffix ''```'' t2 then take (length t2 - 3) t2 else t2)
      in py_strip t3)"

definition parse_json_response :: "json_loads \<Rightarrow> string \<Rightarrow> py_exception + pydict" where
  "parse_json_response loads response_text =
     (case loads (strip_code_fences response_text) of
        Inr d \<Rightarrow> Inr d
      | Inl JSONDecodeError \<Rightarrow>
          Inr [(''error'', JStr msg_parse_error), (''raw_response'', JStr response_text)]
      | Inl e \<Rightarrow> Inl e)"

definition workload_key :: "'a candidate_scheme \<Rightarrow> rat" where
  "workload_key c = (case cand_workload c of None \<Rightarrow> 100 | Some w \<Rightarrow> w)"

definition fallback_recommendation :: "candidate list \<Rightarrow> pydict" where
  "fallback_recommendation candidates =
     (case candidates of
        [] \<Rightarrow> [(''error'', JStr msg_no_candidates)]
      | c # cs \<Rightarrow>
          (let best_candidate = py_min workload_key c cs in
           [(''recommended_user_id'', json_of_int_opt (cand_id best_candidate)),
            (''recommended_user_name'', json_of_str_opt (cand_name best_candidate)),
            (''match_score'', JNum 50),
            (''reasoning'', JStr msg_fallback_reasoning),
            (''pros'', JArr [JStr msg_fallback_pro]),
            (''cons'', JArr [JStr msg_fallback_con]),
            (''warnings'', JArr [JStr msg_fallback_warning])]))"

text \<open>
  Building the prompt reads \<^verbatim>\<open>c['name']\<close> of every candidate, which raises
  \<^verbatim>\<open>KeyError\<close> when the key is absent; every other access has a default.
\<close>

definition build_prompt_raises :: "candidate list \<Rightarrow> bool" where
  "build_prompt_raises candidates = list_ex (\<lambda>c. cand_name c = None) candidates"

definition generate_task_recommendation ::
  "json_loads \<Rightarrow> recommendation_oracle \<Rightarrow> task_data \<Rightarrow> candidate list \<Rightarrow> team_context option \<Rightarrow> pydict" where
  "generate_task_recommendation loads orc tsk candidates ctx =
     (if build_prompt_raises candidates then fallback_recommendation candidates
      else case orc tsk candidates ctx of
        Inl e \<Rightarrow> fallback_recommendation candidates
      | Inr response_text \<Rightarrow>
          (case parse_json_response loads response_text of
             Inl e \<Rightarrow> fallback_recommendation candidates
           | Inr result \<Rightarrow> result))"

section \<open>Collaborators outside the repository\<close>

text \<open>
  What the services use and the repository does not define: the JSON decoder, the
  oracle, \<^verbatim>\<open>round(x, 1)\<close> on floats, the order the store gives to the priority
  column under \<^verbatim>\<open>ORDER BY\<close>, the clock, and the text of the exception the store
  raises when a commit violates a foreign key. Three more concern numbers and keys:
  \<^item> \<open>env_sql_user_id\<close>: the user id, if any, that the store takes a value bound in
    \<^verbatim>\<open>User.id == value\<close> to be. The comparison runs in the store, not in Python: a
    store matches the text \<^verbatim>\<open>"3"\<close> with the id 3, and \<open>None\<close> is a value
    that matches no id. Some stores refuse a value they cannot read as a number and raise
    instead; the model covers the values a store accepts.
  \<^item> \<open>env_py_add\<close>, \<open>env_py_sub\<close>: Python's \<^verbatim>\<open>+\<close> and \<^verbatim>\<open>-\<close> on a load read from
    the store and the float \<^verbatim>\<open>estimated_hours\<close>; the result is a float.
  \<^item> \<open>env_store_integer\<close>: what the integer column \<^verbatim>\<open>current_workload\<close> keeps
    of a number written to it at commit (one store rounds 12.5 to 13, another keeps it).
\<close>

record env =
  env_loads :: json_loads
  env_oracle :: recommendation_oracle
  env_round1 :: "rat \<Rightarrow> rat"
  env_priority_key :: "TaskPriority \<Rightarrow> int"
  env_now :: int
  env_integrity_error :: string
  env_sql_user_id :: "json \<Rightarrow> int option"
  env_py_add :: "rat \<Rightarrow> rat \<Rightarrow> rat"
  env_py_sub :: "rat \<Rightarrow> rat \<Rightarrow> rat"
  env_store_integer :: "rat \<Rightarrow> rat"

section \<open>Wellbeing analysis (\<^verbatim>\<open>app/services/sentiment_analysis.py\<close>)\<close>

definition msg_insufficient_data :: string where
  "msg_insufficient_data =
     ''Dados insuficientes para an'' @ [CHR 0xC3, CHR 0xA1] @ ''lise de padr'' @
     [CHR 0xC3, CHR 0xB5] @ ''es''"

definition msg_rec_urgent :: string where
  "msg_rec_urgent =
     ''Aten'' @ [CHR 0xC3, CHR 0xA7, CHR 0xC3, CHR 0xA3] @ ''o urgente necess'' @
     [CHR 0xC3, CHR 0xA1] @ ''ria - considere conversa individual''"

definition msg_rec_reduce :: string where
  "msg_rec_reduce =
     ''Sugira redu'' @ [CHR 0xC3, CHR 0xA7, CHR 0xC3, CHR 0xA3] @
     ''o de carga ou redistribui'' @ [CHR 0xC3, CHR 0xA7, CHR 0xC3, CHR 0xA3] @
     ''o de tarefas''"

definition msg_rec_support :: string where
  "msg_rec_support = ''Considere encaminhamento para suporte profissional''"

definition msg_rec_mood :: string where
  "msg_rec_mood =
     ''Humor em decl'' @ [CHR 0xC3, CHR 0xAD] @ ''nio - ofere'' @ [CHR 0xC3, CHR 0xA7] @
     ''a suporte emocional''"

definition msg_rec_energy :: string where
  "msg_rec_energy =
     ''Energia em queda - verifique poss'' @ [CHR 0xC3, CHR 0xAD] @ ''vel sobrecarga''"

definition msg_rec_low_energy :: string where
  "msg_rec_low_energy = ''Baixa energia consistente - sugira pausas e descanso''"

definition msg_rec_monitor :: string where
  "msg_rec_monitor = ''Continue monitorando regularmente''"

definition msg_team_not_found :: string where
  "msg_team_not_found = ''Equipe n'' @ [CHR 0xC3, CHR 0xA3] @ ''o encontrada''"

definition emoji_very_bad :: string where
  "emoji_very_bad = [CHR 0xF0, CHR 0x9F, CHR 0x98, CHR 0x9E]"

definition emoji_bad :: string where
  "emoji_bad = [CHR 0xF0, CHR 0x9F, CHR 0x98, CHR 0x9F]"

definition emoji_neutral :: string where
  "emoji_neutral = [CHR 0xF0, CHR 0x9F, CHR 0x98, CHR 0x90]"

definition emoji_good :: string where
  "emoji_good = [CHR 0xF0, CHR 0x9F, CHR 0x99, CHR 0x82]"

definition emoji_very_good :: string where
  "emoji_very_good = [CHR 0xF0, CHR 0x9F, CHR 0x98, CHR 0x84]"

definition battery :: string where
  "battery = [CHR 0xF0, CHR 0x9F, CHR 0x94, CHR 0x8B]"

definition mood_emoji :: "MoodLevel \<Rightarrow> string" where
  "mood_emoji m =
     (case m of VERY_BAD \<Rightarrow> emoji_very_bad | BAD \<Rightarrow> emoji_bad | NEUTRAL \<Rightarrow> emoji_neutral
      | GOOD \<Rightarrow> emoji_good | VERY_GOOD \<Rightarrow> emoji_very_good)"

definition energy_bars :: "EnergyLevel \<Rightarrow> string" where
  "energy_bars e =
     (case e of EXHAUSTED \<Rightarrow> battery | LOW_ENERGY \<Rightarrow> battery @ battery
      | MEDIUM_ENERGY \<Rightarrow> battery @ battery @ battery
      | HIGH_ENERGY \<Rightarrow> battery @ battery @ battery @ battery
      | VERY_HIGH \<Rightarrow> battery @ battery @ battery @ battery @ battery)"

definition is_concerning :: "'a wellbeing_check_scheme \<Rightarrow> bool" where
  "is_concerning c = (mood c \<in> set [VERY_BAD, BAD] \<or> energy c \<in> set [EXHAUSTED, LOW_ENERGY])"

definition mood_to_score :: "MoodLevel \<Rightarrow> int" where
  "mood_to_score m =
     (case m of VERY_BAD \<Rightarrow> 1 | BAD \<Rightarrow> 2 | NEUTRAL \<Rightarrow> 3 | GOOD \<Rightarrow> 4 | VERY_GOOD \<Rightarrow> 5)"

definition energy_to_score :: "EnergyLevel \<Rightarrow> int" where
  "energy_to_score e =
     (case e of EXHAUSTED \<Rightarrow> 1 | LOW_ENERGY \<Rightarrow> 2 | MEDIUM_ENERGY \<Rightarrow> 3 | HIGH_ENERGY \<Rightarrow> 4
      | VERY_HIGH \<Rightarrow> 5)"

text \<open>\<^verbatim>\<open>sum(xs) / len(xs)\<close>, called on non-empty lists only.\<close>

definition mean :: "int list \<Rightarrow> rat" where
  "mean xs = of_int (sum_list xs) / of_nat (length xs)"

definition check_declining_trend :: "int list \<Rightarrow> bool" where
  "check_declining_trend scores =
     (if length scores < 3 then False
      else
        (let recent = drop (length scores - 3) scores;
             older = take 3 scores;
             avg_recent = mean recent;
             avg_older = mean older
         in avg_recent < avg_older - 1 / 2))"

definition get_burnout_recommendations :: "int \<Rightarrow> bool \<Rightarrow> bool \<Rightarrow> bool \<Rightarrow> string list" where
  "get_burnout_recommendations risk_score declining_mood declining_energy consistent_low_energy =
     (let recommendations =
            (if risk_score \<ge> 70 then [msg_rec_urgent, msg_rec_reduce, msg_rec_support] else [])
            @ (if declining_mood then [msg_rec_mood] else [])
            @ (if declining_energy then [msg_rec_energy] else [])
            @ (if consistent_low_energy then [msg_rec_low_energy] else [])
      in if recommendations = [] then [msg_rec_monitor] else recommendations)"

definition recent_checks_asc :: "env \<Rightarrow> db \<Rightarrow> int \<Rightarrow> wellbeing_check list" where
  "recent_checks_asc ev d uid =
     (let since_date = env_now ev - 30 * seconds_per_day
      in sort_key created_at
           (filter (\<lambda>c. check_user_id c = uid \<and> created_at c \<ge> since_date) (checks d)))"

definition detect_burnout_patterns :: "env \<Rightarrow> db \<Rightarrow> int \<Rightarrow> int \<Rightarrow> pydict" where
  "detect_burnout_patterns ev d uid threshold =
     (let cs = recent_checks_asc ev d uid in
      if length cs < 3 then
        [(''has_pattern'', JBool False), (''message'', JStr msg_insufficient_data)]
      else
        (let declining_mood = check_declining_trend (map (\<lambda>c. mood_to_score (mood c)) cs);
             declining_energy = check_declining_trend (map (\<lambda>c. energy_to_score (energy c)) cs);
             consistent_low_mood =
               (of_nat (length (filter (\<lambda>c. mood_to_score (mood c) \<le> 2) cs)) / of_nat (length cs)
                  > (1 / 2 :: rat));
             consistent_low_energy =
               (of_nat (length (filter (\<lambda>c. energy_to_score (energy c) \<le> 2) cs)) / of_nat (length cs)
                  > (1 / 2 :: rat));
             risk_score =
               (if declining_mood then 30 else 0) + (if declining_energy then 30 else 0)
               + (if consistent_low_mood then 20 else 0) + (if consistent_low_energy then 20 else (0::int))
         in [(''has_pattern'', JBool (risk_score \<ge> threshold)),
             (''risk_score'', JNum (of_int risk_score)),
             (''patterns'',
                JObj [(''declining_mood'', JBool declining_mood),
                      (''declining_energy'', JBool declining_energy),
                      (''consistent_low_mood'', JBool consistent_low_mood),
                      (''consistent_low_energy'', JBool consistent_low_energy)]),
             (''severity'',
                JStr (if risk_score \<ge> 80 then ''high'' else if risk_score \<ge> 50 then ''medium''
                      else ''low'')),
             (''recommendations'',
                JArr (map JStr (get_burnout_recommendations risk_score declining_mood
                                  declining_energy consistent_low_energy)))]))"

text \<open>
  The team summary. An alert's message is an f-string of the user's name and one
  number; the alert keeps the number (\<open>alert_value\<close>) and the rendering is not modelled.
\<close>

record member_data =
  md_user_id :: int
  md_name :: string
  md_mood :: MoodLevel
  md_mood_emoji :: string
  md_energy :: EnergyLevel
  md_energy_bars :: string
  md_workload :: rat
  md_is_concerning :: bool
  md_burnout_risk :: "int option"

record alert =
  alert_severity :: string
  alert_user :: string
  alert_type :: string
  alert_value :: "rat option"

record summary_acc =
  acc_mood_scores :: "int list"
  acc_energy_scores :: "int list"
  acc_burnout_risks :: "int list"
  acc_alerts :: "alert list"
  acc_members :: "member_data list"

record team_summary =
  ts_team_size :: nat
  ts_period_days :: int
  ts_members_analysis :: "member_data list"
  ts_alerts :: "alert list"
  ts_average_mood :: "rat option"
  ts_average_energy :: "rat option"
  ts_average_burnout_risk :: "rat option"
  ts_trend :: string

definition last_check_since :: "db \<Rightarrow> int \<Rightarrow> int \<Rightarrow> wellbeing_check option" where
  "last_check_since d since_date uid =
     (case sort_key (\<lambda>c. - created_at c)
             (filter (\<lambda>c. check_user_id c = uid \<and> created_at c \<ge> since_date) (checks d)) of
        [] \<Rightarrow> None
      | c # _ \<Rightarrow> Some c)"

definition burnout_alert :: "user \<Rightarrow> int \<Rightarrow> alert" where
  "burnout_alert member risk =
     \<lparr>alert_severity = ''high'', alert_user = full_name member, alert_type = ''burnout_risk'',
      alert_value = Some (of_int risk)\<rparr>"

definition overload_alert :: "user \<Rightarrow> alert" where
  "overload_alert member =
     \<lparr>alert_severity = ''medium'', alert_user = full_name member, alert_type = ''overload'',
      alert_value = Some (workload_percentage member)\<rparr>"

definition wellbeing_alert :: "user \<Rightarrow> alert" where
  "wellbeing_alert member =
     \<lparr>alert_severity = ''medium'', alert_user = full_name member, alert_type = ''wellbeing'',
      alert_value = None\<rparr>"

definition summary_step :: "env \<Rightarrow> db \<Rightarrow> int \<Rightarrow> summary_acc \<Rightarrow> user \<Rightarrow> summary_acc" where
  "summary_step ev d since_date acc member =
     (case last_check_since d since_date (user_id member) of
        None \<Rightarrow> acc
      | Some last_check \<Rightarrow>
          (let has_risk = truthy (ai_burnout_risk last_check);
               risk = (case ai_burnout_risk last_check of None \<Rightarrow> 0 | Some r \<Rightarrow> r);
               data = \<lparr>md_user_id = user_id member, md_name = full_name member,
                       md_mood = mood last_check, md_mood_emoji = mood_emoji (mood last_check),
                       md_energy = energy last_check,
                       md_energy_bars = energy_bars (energy last_check),
                       md_workload = env_round1 ev (workload_percentage member),
                       md_is_concerning = is_concerning last_check,
                       md_burnout_risk = (if has_risk then Some risk else None)\<rparr>
           in \<lparr>acc_mood_scores = acc_mood_scores acc @ [mood_to_score (mood last_check)],
               acc_energy_scores = acc_energy_scores acc @ [energy_to_score (energy last_check)],
               acc_burnout_risks = acc_burnout_risks acc @ (if has_risk then [risk] else []),
               acc_alerts = acc_alerts acc
                 @ (if has_risk \<and> risk > 70 then [burnout_alert member risk] else [])
                 @ (if is_overloaded member then [overload_alert member] else [])
                 @ (if is_concerning last_check then [wellbeing_alert member] else []),
               acc_members = acc_members acc @ [data]\<rparr>))"

definition empty_acc :: summary_acc where
  "empty_acc = \<lparr>acc_mood_scores = [], acc_energy_scores = [], acc_burnout_risks = [],
                 acc_alerts = [], acc_members = []\<rparr>"

definition analyse_members :: "env \<Rightarrow> db \<Rightarrow> int \<Rightarrow> user list \<Rightarrow> summary_acc" where
  "analyse_members ev d since_date members = foldl (summary_step ev d since_date) empty_acc members"

definition severity_rank :: "string \<Rightarrow> int" where
  "severity_rank s =
     (if s = ''high'' then 3 else if s = ''medium'' then 2 else if s = ''low'' then 1 else 0)"

definition rounded_mean :: "env \<Rightarrow> int list \<Rightarrow> rat option" where
  "rounded_mean ev xs = (if xs = [] then None else Some (env_round1 ev (mean xs)))"

definition summary_of_acc :: "env \<Rightarrow> nat \<Rightarrow> int \<Rightarrow> summary_acc \<Rightarrow> team_summary" where
  "summary_of_acc ev n days acc =
     \<lparr>ts_team_size = n,
      ts_period_days = days,
      ts_members_analysis = acc_members acc,
      ts_alerts = sort_key (\<lambda>a. - severity_rank (alert_severity a)) (acc_alerts acc),
      ts_average_mood = rounded_mean ev (acc_mood_scores acc),
      ts_average_energy = rounded_mean ev (acc_energy_scores acc),
      ts_average_burnout_risk = rounded_mean ev (acc_burnout_risks acc),
      ts_trend =
        (if acc_mood_scores acc = [] then ''stable''
         else if mean (acc_mood_scores acc) \<ge> 4 then ''positive''
         else if mean (acc_mood_scores acc) \<le> 2 then ''concerning''
         else ''stable'')\<rparr>"

definition active_team_members :: "db \<Rightarrow> int \<Rightarrow> user list" where
  "active_team_members d team_id =
     filter (\<lambda>u. manager_id u = Some team_id \<and> is_active u) (users d)"

definition get_team_wellbeing_summary :: "env \<Rightarrow> db \<Rightarrow> int \<Rightarrow> int \<Rightarrow> string + team_summary" where
  "get_team_wellbeing_summary ev d team_id days =
     (let team_members = active_team_members d team_id in
      if team_members = [] then Inl msg_team_not_found
      else
        (let since_date = env_now ev - days * seconds_per_day
         in Inr (summary_of_acc ev (length team_members) days
                   (analyse_members ev d since_date team_members))))"

section \<open>Task distribution (\<^verbatim>\<open>app/services/task_distribution.py\<close>)\<close>

definition msg_task_not_found :: string where
  "msg_task_not_found = ''Tarefa n'' @ [CHR 0xC3, CHR 0xA3] @ ''o encontrada''"

definition msg_no_collaborator :: string where
  "msg_no_collaborator = ''Nenhum colaborador dispon'' @ [CHR 0xC3, CHR 0xAD] @ ''vel''"

definition msg_assigned :: string where
  "msg_assigned = ''Tarefa atribu'' @ [CHR 0xC3, CHR 0xAD] @ ''da com sucesso''"

definition msg_none_task :: string where
  "msg_none_task =
     [CHR 0x27] @ ''NoneType'' @ [CHR 0x27] @ '' object has no attribute ''
     @ [CHR 0x27] @ ''assigned_to'' @ [CHR 0x27]"

definition get_eligible_candidates :: "db \<Rightarrow> int option \<Rightarrow> user list" where
  "get_eligible_candidates d team_id =
     (let query = filter (\<lambda>u. role u = COLABORADOR \<and> is_active u) (users d);
          query' = (if truthy team_id then filter (\<lambda>u. manager_id u = team_id) query else query)
      in filter (\<lambda>u. available_hours u > 0) query')"

definition prepare_task_data :: "task \<Rightarrow> task_data" where
  "prepare_task_data t =
     \<lparr>td_id = task_id t, td_title = title t, td_description = description t,
      td_priority = priority t,
      td_estimated_hours = (case estimated_hours t of None \<Rightarrow> 0 | Some h \<Rightarrow> h),
      td_required_skills = required_skills t, td_due_date = due_date t\<rparr>"

definition last_wellbeing :: "db \<Rightarrow> int \<Rightarrow> wellbeing_check option" where
  "last_wellbeing d uid =
     (case sort_key (\<lambda>c. - created_at c) (filter (\<lambda>c. check_user_id c = uid) (checks d)) of
        [] \<Rightarrow> None
      | c # _ \<Rightarrow> Some c)"

definition prepare_candidate_data :: "env \<Rightarrow> db \<Rightarrow> user \<Rightarrow> candidate" where
  "prepare_candidate_data ev d u =
     \<lparr>cand_id = Some (user_id u), cand_name = Some (full_name u), cand_username = username u,
      cand_position = position u,
      cand_skills = map snd (filter (\<lambda>us. fst us = user_id u) (user_skills d)),
      cand_workload = Some (env_round1 ev (workload_percentage u)),
      cand_available_hours = available_hours u,
      cand_energy = (case last_wellbeing d (user_id u) of None \<Rightarrow> MEDIUM_ENERGY | Some c \<Rightarrow> energy c),
      cand_mood = (case last_wellbeing d (user_id u) of None \<Rightarrow> NEUTRAL | Some c \<Rightarrow> mood c)\<rparr>"

definition get_team_context :: "db \<Rightarrow> int option \<Rightarrow> team_context option" where
  "get_team_context d team_id =
     (if \<not> truthy team_id then None
      else
        (let team_members = filter (\<lambda>u. manager_id u = team_id) (users d) in
         if team_members = [] then None
         else Some \<lparr>ctx_team_size = length team_members,
                    ctx_average_workload =
                      sum_list (map workload_percentage team_members) / of_nat (length team_members),
                    ctx_overloaded_count = length (filter is_overloaded team_members)\<rparr>))"

definition user_details :: "user \<Rightarrow> json" where
  "user_details u =
     JObj [(''email'', JStr (email u)), (''position'', json_of_str_opt (position u)),
           (''department'', json_of_str_opt (department u))]"

text \<open>\<^verbatim>\<open>db.query(User).filter(User.id == value).first()\<close>\<close>

definition user_by_id :: "env \<Rightarrow> db \<Rightarrow> json \<Rightarrow> user option" where
  "user_by_id ev d v =
     (case env_sql_user_id ev v of
        None \<Rightarrow> None
      | Some n \<Rightarrow> find (\<lambda>u. user_id u = n) (users d))"

text \<open>
  A commit writes a load that the session changed, and the column keeps of it what the
  store makes of it; a load set to the value it had is not written.
\<close>

definition commit_load :: "env \<Rightarrow> rat \<Rightarrow> rat \<Rightarrow> rat" where
  "commit_load ev stored new = (if new = stored then stored else env_store_integer ev new)"

definition recommend_assignee :: "env \<Rightarrow> db \<Rightarrow> int \<Rightarrow> int option \<Rightarrow> pydict" where
  "recommend_assignee ev d tid team_id =
     (case find (\<lambda>t. task_id t = tid) (tasks d) of
        None \<Rightarrow> [(''error'', JStr msg_task_not_found)]
      | Some t \<Rightarrow>
          (let candidates = get_eligible_candidates d team_id in
           if candidates = [] then [(''error'', JStr msg_no_collaborator)]
           else
             (let recommendation =
                    generate_task_recommendation (env_loads ev) (env_oracle ev)
                      (prepare_task_data t) (map (prepare_candidate_data ev d) candidates)
                      (get_team_context d team_id)
              in if has_key ''recommended_user_id'' recommendation then
                   (case user_by_id ev d (dict_get recommendation ''recommended_user_id'') of
                      None \<Rightarrow> recommendation
                    | Some u \<Rightarrow> dict_set ''user_details'' (user_details u) recommendation)
                 else recommendation)))"

text \<open>
  Applying a recommendation. The assignee column is a foreign key: when the recommended
  id names no user the commit fails, the session is rolled back and the exception's text
  is returned.
\<close>

definition add_workload :: "env \<Rightarrow> int \<Rightarrow> rat option \<Rightarrow> user list \<Rightarrow> user list" where
  "add_workload ev uid hours us =
     (if truthy hours
      then update_user uid
             (\<lambda>u. u\<lparr>current_workload :=
                      commit_load ev (current_workload u)
                        (env_py_add ev (current_workload u) (the hours))\<rparr>) us
      else us)"

definition auto_distribute_task :: "env \<Rightarrow> db \<Rightarrow> int \<Rightarrow> bool \<Rightarrow> pydict \<times> db" where
  "auto_distribute_task ev d tid auto_assign =
     (let recommendation = recommend_assignee ev d tid None in
      if has_key ''error'' recommendation then (recommendation, d)
      else if auto_assign \<and> has_key ''recommended_user_id'' recommendation then
        (case find (\<lambda>t. task_id t = tid) (tasks d) of
           None \<Rightarrow> ([(''error'', JStr msg_none_task)], d)
         | Some t \<Rightarrow>
             (case user_by_id ev d (dict_get recommendation ''recommended_user_id'') of
                None \<Rightarrow> ([(''error'', JStr (env_integrity_error ev))], d)
              | Some u \<Rightarrow>
                  (dict_set ''message'' (JStr msg_assigned)
                     (dict_set ''assigned'' (JBool True) recommendation),
                   d\<lparr>tasks :=
                        update_task_row tid
                          (\<lambda>x. x\<lparr>assigned_to := Some (user_id u), status := PENDING,
                                  ai_match_score :=
                                    dict_get_default recommendation ''match_score'' (JNum 0),
                                  ai_recommendation_reason :=
                                    dict_get_default recommendation ''reasoning'' (JStr [])\<rparr>)
                          (tasks d),
                      users := add_workload ev (user_id u) (estimated_hours t) (users d)\<rparr>)))
      else (recommendation, d))"

text \<open>
  Rebalancing. A proposed move keeps the oracle's values as they came; the report's
  summary text is an f-string of the number of moves and is not modelled.
\<close>

record proposed_move =
  mv_task_id :: int
  mv_task_title :: string
  mv_from_user :: string
  mv_to_user :: json
  mv_to_user_id :: json
  mv_reason :: json
  mv_match_score :: json

record rebalance_report =
  overloaded_count :: nat
  underloaded_count :: nat
  recommendations :: "proposed_move list"
  applied :: bool

definition pending_tasks :: "env \<Rightarrow> db \<Rightarrow> user \<Rightarrow> task list" where
  "pending_tasks ev d overloaded_user =
     sort_key (\<lambda>t. - env_priority_key ev (priority t))
       (filter (\<lambda>t. assigned_to t = Some (user_id overloaded_user) \<and> status t = PENDING) (tasks d))"

definition considered_tasks :: "env \<Rightarrow> db \<Rightarrow> user \<Rightarrow> task list" where
  "considered_tasks ev d overloaded_user = take 3 (pending_tasks ev d overloaded_user)"

definition propose_move :: "env \<Rightarrow> db \<Rightarrow> int \<Rightarrow> user \<Rightarrow> task \<Rightarrow> proposed_move list" where
  "propose_move ev d team_id overloaded_user t =
     (let rec = recommend_assignee ev d (task_id t) (Some team_id) in
      if has_key ''recommended_user_id'' rec
         \<and> \<not> py_eq_int (dict_get rec ''recommended_user_id'') (user_id overloaded_user)
      then [\<lparr>mv_task_id = task_id t, mv_task_title = title t,
              mv_from_user = username overloaded_user,
              mv_to_user = dict_get rec ''recommended_user_name'',
              mv_to_user_id = dict_get rec ''recommended_user_id'',
              mv_reason = dict_get rec ''reasoning'',
              mv_match_score = dict_get rec ''match_score''\<rparr>]
      else [])"

definition propose_moves :: "env \<Rightarrow> db \<Rightarrow> int \<Rightarrow> user list \<Rightarrow> proposed_move list" where
  "propose_moves ev d team_id overloaded =
     concat (map (\<lambda>overloaded_user.
                    concat (map (propose_move ev d team_id overloaded_user)
                              (considered_tasks ev d overloaded_user)))
               overloaded)"

text \<open>
  One turn of the apply loop, on the objects of the session: the loads are Python
  numbers until the commit after the loop.
\<close>

definition apply_move :: "env \<Rightarrow> db \<Rightarrow> proposed_move \<Rightarrow> db" where
  "apply_move ev d rec =
     (case (find (\<lambda>t. task_id t = mv_task_id rec) (tasks d),
            find (\<lambda>u. username u = mv_from_user rec) (users d),
            user_by_id ev d (mv_to_user_id rec)) of
        (Some t, Some old_user, Some new_user) \<Rightarrow>
          (let ts = update_task_row (task_id t) (\<lambda>x. x\<lparr>assigned_to := Some (user_id new_user)\<rparr>)
                      (tasks d)
           in if truthy (estimated_hours t) then
                d\<lparr>tasks := ts,
                  users :=
                    update_user (user_id new_user)
                      (\<lambda>u. u\<lparr>current_workload :=
                               env_py_add ev (current_workload u) (the (estimated_hours t))\<rparr>)
                      (update_user (user_id old_user)
                         (\<lambda>u. u\<lparr>current_workload :=
                                  env_py_sub ev (current_workload u) (the (estimated_hours t))\<rparr>)
                         (users d))\<rparr>
              else d\<lparr>tasks := ts\<rparr>)
      | _ \<Rightarrow> d)"

definition commit_users :: "env \<Rightarrow> user list \<Rightarrow> user list \<Rightarrow> user list" where
  "commit_users ev stored session =
     map (\<lambda>(s, u). u\<lparr>current_workload :=
                        commit_load ev (current_workload s) (current_workload u)\<rparr>)
       (zip stored session)"

definition apply_moves :: "env \<Rightarrow> db \<Rightarrow> proposed_move list \<Rightarrow> db" where
  "apply_moves ev d recs =
     (let session = foldl (apply_move ev) d recs
      in session\<lparr>users := commit_users ev (users d) (users session)\<rparr>)"

definition rebalance_team_workload ::
  "env \<Rightarrow> db \<Rightarrow> int \<Rightarrow> bool \<Rightarrow> (string + rebalance_report) \<times> db" where
  "rebalance_team_workload ev d team_id dry_run =
     (let team_members = active_team_members d team_id in
      if team_members = [] then (Inl msg_team_not_found, d)
      else
        (let overloaded = filter is_overloaded team_members;
             underloaded = filter (\<lambda>u. workload_percentage u < 70) team_members;
             recs = propose_moves ev d team_id overloaded;
             d' = (if \<not> dry_run \<and> recs \<noteq> [] then apply_moves ev d recs else d)
         in (Inr \<lparr>overloaded_count = length overloaded, underloaded_count = length underloaded,
                   recommendations = recs, applied = (\<not> dry_run)\<rparr>, d')))"

section \<open>Task routes (\<^verbatim>\<open>app/routes/tasks.py\<close>)\<close>

datatype http_error = HTTP_403 | HTTP_404 | HTTP_500

record task_update =
  upd_title :: "string option"
  upd_description :: "string option"
  upd_status :: "TaskStatus option"
  upd_priority :: "TaskPriority option"
  upd_estimated_hours :: "rat option"
  upd_actual_hours :: "rat option"
  upd_assigned_to :: "int option"

definition set_opt :: "'a option \<Rightarrow> 'a \<Rightarrow> 'a" where
  "set_opt new old = (case new of None \<Rightarrow> old | Some v \<Rightarrow> v)"

text \<open>
  \<^verbatim>\<open>update_task\<close>: the assignee column is a foreign key, so a commit that names an
  unknown user fails and the handler answers 500 after a rollback.
\<close>

definition update_task :: "env \<Rightarrow> db \<Rightarrow> user \<Rightarrow> int \<Rightarrow> task_update \<Rightarrow> http_error + db" where
  "update_task ev d current_user tid task_data =
     (case find (\<lambda>t. task_id t = tid) (tasks d) of
        None \<Rightarrow> Inl HTTP_404
      | Some t \<Rightarrow>
          (let is_assigned = (assigned_to t = Some (user_id current_user));
               is_manager = (role current_user \<in> set [GESTOR, ADMIN])
           in if \<not> (is_assigned \<or> is_manager) then Inl HTTP_403
              else
                (let t1 = (if is_assigned \<and> \<not> is_manager
                           then t\<lparr>status := set_opt (upd_status task_data) (status t),
                                  actual_hours := set_opt (upd_actual_hours task_data) (actual_hours t)\<rparr>
                           else t);
                     t2 = (if is_manager
                           then t1\<lparr>title := (case upd_title task_data of
                                                 None \<Rightarrow> title t1
                                               | Some s \<Rightarrow> if s = [] then title t1 else s),
                                   description := (case upd_description task_data of
                                                     None \<Rightarrow> description t1 | Some s \<Rightarrow> Some s),
                                   status := set_opt (upd_status task_data) (status t1),
                                   priority := set_opt (upd_priority task_data) (priority t1),
                                   estimated_hours := (case upd_estimated_hours task_data of
                                                         None \<Rightarrow> estimated_hours t1 | Some h \<Rightarrow> Some h),
                                   actual_hours := set_opt (upd_actual_hours task_data) (actual_hours t1),
                                   assigned_to := (case upd_assigned_to task_data of
                                                     None \<Rightarrow> assigned_to t1 | Some a \<Rightarrow> Some a)\<rparr>
                           else t1);
                     t3 = (if upd_status task_data = Some IN_PROGRESS \<and> started_at t2 = None
                           then t2\<lparr>started_at := Some (env_now ev)\<rparr> else t2);
                     t4 = (if upd_status task_data = Some COMPLETED \<and> completed_at t3 = None
                           then t3\<lparr>completed_at := Some (env_now ev)\<rparr> else t3)
                 in if is_manager
                       \<and> (case upd_assigned_to task_data of
                              None \<Rightarrow> False
                            | Some a \<Rightarrow> find (\<lambda>u. user_id u = a) (users d) = None)
                    then Inl HTTP_500
                    else Inr (d\<lparr>tasks := update_task_row tid (\<lambda>_. t4) (tasks d)\<rparr>))))"

definition delete_task :: "env \<Rightarrow> db \<Rightarrow> int \<Rightarrow> http_error + db" where
  "delete_task ev d tid =
     (case find (\<lambda>t. task_id t = tid) (tasks d) of
        None \<Rightarrow> Inl HTTP_404
      | Some t \<Rightarrow>
          (let us =
                 (if truthy (assigned_to t) \<and> truthy (estimated_hours t) then
                    (case find (\<lambda>u. user_id u = the (assigned_to t)) (users d) of
                       None \<Rightarrow> users d
                     | Some assigned_user \<Rightarrow>
                         update_user (user_id assigned_user)
                           (\<lambda>u. u\<lparr>current_workload :=
                                    commit_load ev (current_workload u)
                                      (max 0 (env_py_sub ev (current_workload u)
                                                (the (estimated_hours t))))\<rparr>)
                           (users d))
                  else users d)
           in Inr (d\<lparr>users := us, tasks := filter (\<lambda>x. task_id x \<noteq> tid) (tasks d)\<rparr>)))"

section \<open>Observations on the store\<close>

text \<open>
  What the properties below read off a store: the assignee of a work item and the load
  of a person, by id; what a proposed move resolves to when it is applied, that is the
  item, the source and destination persons found by the three queries of the apply loop,
  and the hours moved (zero for an absent or zero estimate); and whether the move takes
  effect, that is whether the destination is a person other than the source.
\<close>

definition hours_or_zero :: "rat option \<Rightarrow> rat" where
  "hours_or_zero h = (if truthy h then the h else 0)"

record resolved_move =
  rm_task :: int
  rm_old :: int
  rm_new :: int
  rm_hours :: rat

definition resolve_move :: "env \<Rightarrow> db \<Rightarrow> proposed_move \<Rightarrow> resolved_move option" where
  "resolve_move ev d rec =
     (case (find (\<lambda>t. task_id t = mv_task_id rec) (tasks d),
            find (\<lambda>u. username u = mv_from_user rec) (users d),
            user_by_id ev d (mv_to_user_id rec)) of
        (Some t, Some old_user, Some new_user) \<Rightarrow>
          Some \<lparr>rm_task = task_id t, rm_old = user_id old_user, rm_new = user_id new_user,
                rm_hours = hours_or_zero (estimated_hours t)\<rparr>
      | _ \<Rightarrow> None)"

definition takes_effect :: "env \<Rightarrow> db \<Rightarrow> proposed_move \<Rightarrow> bool" where
  "takes_effect ev d rec =
     (case resolve_move ev d rec of None \<Rightarrow> False | Some e \<Rightarrow> rm_new e \<noteq> rm_old e)"

definition assignee_of :: "db \<Rightarrow> int \<Rightarrow> int option option" where
  "assignee_of d tid = map_option assigned_to (find (\<lambda>t. task_id t = tid) (tasks d))"

definition load_of :: "db \<Rightarrow> int \<Rightarrow> rat option" where
  "load_of d uid = map_option current_workload (find (\<lambda>u. user_id u = uid) (users d))"

definition load_shift :: "env \<Rightarrow> db \<Rightarrow> proposed_move \<Rightarrow> int \<Rightarrow> rat" where
  "load_shift ev d rec uid =
     (case resolve_move ev d rec of
        None \<Rightarrow> 0
      | Some e \<Rightarrow> (if uid = rm_new e then rm_hours e else 0) - (if uid = rm_old e then rm_hours e else 0))"

text \<open>The turn of the apply loop for a resolved move, in exact arithmetic.\<close>

definition add_load :: "rat \<Rightarrow> user \<Rightarrow> user" where
  "add_load c u = u\<lparr>current_workload := current_workload u + c\<rparr>"

definition apply_resolved :: "db \<Rightarrow> resolved_move \<Rightarrow> db" where
  "apply_resolved d e =
     d\<lparr>tasks := update_task_row (rm_task e) (\<lambda>x. x\<lparr>assigned_to := Some (rm_new e)\<rparr>) (tasks d),
       users := update_user (rm_new e) (add_load (rm_hours e))
                  (update_user (rm_old e) (add_load (- rm_hours e)) (users d))\<rparr>"

definition apply_exact :: "env \<Rightarrow> db \<Rightarrow> proposed_move \<Rightarrow> db" where
  "apply_exact ev d rec = (case resolve_move ev d rec of None \<Rightarrow> d | Some e \<Rightarrow> apply_resolved d e)"

text \<open>The row update that applying a recommendation performs.\<close>

definition assign_row :: "int \<Rightarrow> pydict \<Rightarrow> task \<Rightarrow> task" where
  "assign_row uid recommendation x =
     x\<lparr>assigned_to := Some uid, status := PENDING,
       ai_match_score := dict_get_default recommendation ''match_score'' (JNum 0),
       ai_recommendation_reason := dict_get_default recommendation ''reasoning'' (JStr [])\<rparr>"

text \<open>
  Whole numbers of hours. Python's floats add and subtract whole numbers without error
  as long as operands and result stay below $2^{53}$ in magnitude, and every store keeps
  a whole number within the range of its integer column as it is: \<open>exact_upto ev B\<close>
  says so of the platform, for a bound \<open>B\<close>. \<open>whole_hours\<close> says that every load
  and every estimate of a store is a whole number, and \<open>loads_within B\<close> that no load
  can leave the range \<open>B\<close> by moving estimates of the store around.
\<close>

definition whole :: "rat \<Rightarrow> bool" where
  "whole x = (of_int \<lfloor>x\<rfloor> = x)"

definition exact_upto :: "env \<Rightarrow> rat \<Rightarrow> bool" where
  "exact_upto ev B =
     ((\<forall>a b. whole a \<and> whole b \<and> \<bar>a\<bar> \<le> B \<and> \<bar>b\<bar> \<le> B \<and> \<bar>a + b\<bar> \<le> B
             \<longrightarrow> env_py_add ev a b = a + b)
      \<and> (\<forall>a b. whole a \<and> whole b \<and> \<bar>a\<bar> \<le> B \<and> \<bar>b\<bar> \<le> B \<and> \<bar>a - b\<bar> \<le> B
             \<longrightarrow> env_py_sub ev a b = a - b)
      \<and> (\<forall>a. whole a \<and> \<bar>a\<bar> \<le> B \<longrightarrow> env_store_integer ev a = a))"

definition whole_hours :: "db \<Rightarrow> bool" where
  "whole_hours d =
     (list_all (\<lambda>u. whole (current_workload u)) (users d)
      \<and> list_all (\<lambda>t. whole (hours_or_zero (estimated_hours t))) (tasks d))"

definition total_abs_hours :: "db \<Rightarrow> rat" where
  "total_abs_hours d = sum_list (map (\<lambda>t. \<bar>hours_or_zero (estimated_hours t)\<bar>) (tasks d))"

definition loads_within :: "rat \<Rightarrow> db \<Rightarrow> bool" where
  "loads_within B d =
     list_all (\<lambda>u. \<bar>current_workload u\<bar> + total_abs_hours d \<le> B) (users d)"

text \<open>
  What the queries of the apply loop read of a row: id and estimate of a work item,
  name and id of a person; and the hours a proposed move carries.
\<close>

definition task_key :: "task \<Rightarrow> int \<times> rat option" where
  "task_key t = (task_id t, estimated_hours t)"

definition user_key :: "user \<Rightarrow> string \<times> int" where
  "user_key u = (username u, user_id u)"

definition moved_hours :: "env \<Rightarrow> db \<Rightarrow> proposed_move \<Rightarrow> rat" where
  "moved_hours ev d mv = (case resolve_move ev d mv of None \<Rightarrow> 0 | Some e \<Rightarrow> rm_hours e)"

section \<open>Test doubles and example data\<close>

text \<open>
  Stand-ins for the collaborators: a decoder given by the finite table of the texts it
  accepts, an oracle that always replies with one text, an oracle that always raises,
  rounding to one decimal on exact rationals (half to even), the position of a priority
  in the declaration of \<^verbatim>\<open>TaskPriority\<close> (the order of a store with a native
  enumeration type) and the position of its name in alphabetical order (the order of a
  store that keeps the member names as text), a store that takes a whole number, the
  decimal digits of one, or a truth value for a user id, and a store whose integer
  column rounds to the nearest whole number, halves away from zero.
\<close>

definition table_loads :: "(string \<times> pydict) list \<Rightarrow> json_loads" where
  "table_loads tbl s = (case map_of tbl s of None \<Rightarrow> Inl JSONDecodeError | Some d \<Rightarrow> Inr d)"

definition oracle_replying :: "string \<Rightarrow> recommendation_oracle" where
  "oracle_replying response_text tsk candidates ctx = Inr response_text"

definition oracle_failing :: recommendation_oracle where
  "oracle_failing tsk candidates ctx = Inl OtherException"

definition round_half_even :: "rat \<Rightarrow> int" where
  "round_half_even x =
     (let f = \<lfloor>x\<rfloor>; r = x - of_int f
      in if r < 1 / 2 then f else if r > 1 / 2 then f + 1 else if even f then f else f + 1)"

definition round1_exact :: "rat \<Rightarrow> rat" where
  "round1_exact x = of_int (round_half_even (x * 10)) / 10"

definition priority_level :: "TaskPriority \<Rightarrow> int" where
  "priority_level p = (case p of LOW \<Rightarrow> 0 | MEDIUM \<Rightarrow> 1 | HIGH \<Rightarrow> 2 | URGENT \<Rightarrow> 3)"

definition name_order :: "TaskPriority \<Rightarrow> int" where
  "name_order p = (case p of HIGH \<Rightarrow> 0 | LOW \<Rightarrow> 1 | MEDIUM \<Rightarrow> 2 | URGENT \<Rightarrow> 3)"

fun parse_digits :: "nat \<Rightarrow> string \<Rightarrow> nat option" where
  "parse_digits acc [] = Some acc"
| "parse_digits acc (c # cs) =
     (if (48::nat) \<le> of_char c \<and> of_char c \<le> (57::nat)
      then parse_digits (10 * acc + (of_char c - 48)) cs else None)"

fun lenient_user_id :: "json \<Rightarrow> int option" where
  "lenient_user_id (JNum r) = (if whole r then Some \<lfloor>r\<rfloor> else None)"
| "lenient_user_id (JStr s) = (if s = [] then None else map_option int (parse_digits 0 s))"
| "lenient_user_id (JBool b) = Some (if b then 1 else 0)"
| "lenient_user_id _ = None"

definition round_half_away :: "rat \<Rightarrow> rat" where
  "round_half_away x = (if 0 \<le> x then of_int \<lfloor>x + 1 / 2\<rfloor> else - of_int \<lfloor>- x + 1 / 2\<rfloor>)"

definition sample_env :: env where
  "sample_env =
     \<lparr>env_loads = table_loads [], env_oracle = oracle_failing, env_round1 = round1_exact,
      env_priority_key = priority_level, env_now = 100 * seconds_per_day,
      env_integrity_error = ''IntegrityError'', env_sql_user_id = lenient_user_id,
      env_py_add = (+), env_py_sub = (-), env_store_integer = (\<lambda>x. x)\<rparr>"

definition text_ordered_env :: env where
  "text_ordered_env = sample_env\<lparr>env_priority_key := name_order\<rparr>"

definition rounding_env :: env where
  "rounding_env = sample_env\<lparr>env_store_integer := round_half_away\<rparr>"

definition sample_candidate :: "int \<Rightarrow> string \<Rightarrow> rat \<Rightarrow> candidate" where
  "sample_candidate i n w =
     \<lparr>cand_id = Some i, cand_name = Some n, cand_username = n, cand_position = None,
      cand_skills = [], cand_workload = Some w, cand_available_hours = 40 - w * 2 / 5,
      cand_energy = MEDIUM_ENERGY, cand_mood = NEUTRAL\<rparr>"

definition sample_candidates :: "candidate list" where
  "sample_candidates =
     [sample_candidate 2 ''Ana'' 30, sample_candidate 3 ''Pedro'' 20, sample_candidate 4 ''Maria'' 20]"

definition sample_task_data :: task_data where
  "sample_task_data =
     \<lparr>td_id = 1, td_title = ''Relatorio'', td_description = None, td_priority = URGENT,
      td_estimated_hours = 4, td_required_skills = [], td_due_date = None\<rparr>"

definition sample_user :: "int \<Rightarrow> string \<Rightarrow> UserRole \<Rightarrow> int option \<Rightarrow> int \<Rightarrow> rat \<Rightarrow> user" where
  "sample_user i n r m cap load =
     \<lparr>user_id = i, username = n, full_name = n, email = n @ ''@ideiatech.com'',
      position = None, department = None, role = r, is_active = True, manager_id = m,
      workload_capacity = cap, current_workload = load\<rparr>"

definition sample_task :: "int \<Rightarrow> TaskPriority \<Rightarrow> int option \<Rightarrow> rat option \<Rightarrow> task" where
  "sample_task i p a h =
     \<lparr>task_id = i, title = ''Relatorio'', description = None, status = PENDING, priority = p,
      assigned_to = a, created_by = 1, estimated_hours = h, actual_hours = 0,
      required_skills = [], due_date = None, started_at = None, completed_at = None,
      ai_match_score = JNull, ai_recommendation_reason = JNull\<rparr>"

definition sample_check :: "int \<Rightarrow> int \<Rightarrow> MoodLevel \<Rightarrow> EnergyLevel \<Rightarrow> int \<Rightarrow> wellbeing_check" where
  "sample_check i u m e day =
     \<lparr>check_id = i, check_user_id = u, mood = m, energy = e, check_notes = None,
      ai_sentiment_score = None, ai_burnout_risk = None, created_at = day * seconds_per_day\<rparr>"

text \<open>
  The team of the specification's example: Ana holds 38 of 40 hours and a pending urgent
  item of 4 hours, Pedro holds 10 of 40. Maria is full and has never checked in.
\<close>

definition sample_manager :: user where
  "sample_manager = sample_user 1 ''gestor'' GESTOR None 40 0"

definition sample_ana :: user where
  "sample_ana = sample_user 2 ''ana.costa'' COLABORADOR (Some 1) 40 38"

definition sample_pedro :: user where
  "sample_pedro = sample_user 3 ''pedro.oliveira'' COLABORADOR (Some 1) 40 10"

definition sample_maria :: user where
  "sample_maria = sample_user 4 ''maria.santos'' COLABORADOR (Some 1) 10 10"

definition sample_db :: db where
  "sample_db =
     \<lparr>users = [sample_manager, sample_ana, sample_pedro, sample_maria],
      tasks = [sample_task 1 URGENT (Some 2) (Some 4)],
      checks = [sample_check 1 2 GOOD HIGH_ENERGY 98, sample_check 2 2 BAD LOW_ENERGY 99,
                sample_check 3 3 GOOD MEDIUM_ENERGY 99],
      user_skills = []\<rparr>"

text \<open>Ana with five pending items of mixed priority.\<close>

definition busy_db :: db where
  "busy_db =
     sample_db\<lparr>tasks := [sample_task 1 LOW (Some 2) (Some 4), sample_task 2 URGENT (Some 2) (Some 4),
                          sample_task 3 MEDIUM (Some 2) (Some 4), sample_task 4 HIGH (Some 2) (Some 4),
                          sample_task 5 HIGH (Some 2) (Some 4)]\<rparr>"

text \<open>
  An oracle that gives the id of Pedro as a text, an oracle that gives the id of Ana, the
  holder, as a text, and an oracle that recommends a person who does not exist, each with
  a decoder that accepts exactly its reply.
\<close>

definition text_id_reply :: string where
  "text_id_reply =
     ''{'' @ [CHR 0x22] @ ''recommended_user_id'' @ [CHR 0x22] @ '': '' @ [CHR 0x22] @ ''3''
     @ [CHR 0x22] @ ''}''"

definition text_id_env :: env where
  "text_id_env =
     sample_env\<lparr>env_loads := table_loads [(text_id_reply, [(''recommended_user_id'', JStr ''3'')])],
                  env_oracle := oracle_replying text_id_reply\<rparr>"

definition holder_id_reply :: string where
  "holder_id_reply =
     ''{'' @ [CHR 0x22] @ ''recommended_user_id'' @ [CHR 0x22] @ '': '' @ [CHR 0x22] @ ''2''
     @ [CHR 0x22] @ ''}''"

definition holder_id_env :: env where
  "holder_id_env =
     sample_env\<lparr>env_loads := table_loads [(holder_id_reply, [(''recommended_user_id'', JStr ''2'')])],
                  env_oracle := oracle_replying holder_id_reply\<rparr>"

definition phantom_reply :: string where
  "phantom_reply =
     ''{'' @ [CHR 0x22] @ ''recommended_user_id'' @ [CHR 0x22] @ '': 999}''"

definition phantom_env :: env where
  "phantom_env =
     sample_env\<lparr>env_loads := table_loads [(phantom_reply, [(''recommended_user_id'', JNum 999)])],
                  env_oracle := oracle_replying phantom_reply\<rparr>"

text \<open>
  A store whose load counter lags behind an estimate: Ana holds 10 of 10 hours and a
  pending item whose estimate was raised to 20 hours after it was assigned.
\<close>

definition overdrawn_db :: db where
  "overdrawn_db =
     \<lparr>users = [sample_manager, sample_user 2 ''ana.costa'' COLABORADOR (Some 1) 10 10,
               sample_user 3 ''pedro.oliveira'' COLABORADOR (Some 1) 40 0],
      tasks = [sample_task 1 URGENT (Some 2) (Some 20)],
      checks = [], user_skills = []\<rparr>"

text \<open>Ana holds 2 hours and an item of 5 hours.\<close>

definition clamped_db :: db where
  "clamped_db =
     \<lparr>users = [sample_manager, sample_user 2 ''ana.costa'' COLABORADOR (Some 1) 40 2],
      tasks = [sample_task 1 MEDIUM (Some 2) (Some 5)],
      checks = [], user_skills = []\<rparr>"


text \<open>The example team with its item not yet assigned, of 4 hours and of 2.5 hours.\<close>

definition unassigned_db :: db where
  "unassigned_db = sample_db\<lparr>tasks := [sample_task 1 URGENT None (Some 4)]\<rparr>"

definition fraction_db :: db where
  "fraction_db = sample_db\<lparr>tasks := [sample_task 1 URGENT None (Some (5 / 2))]\<rparr>"

section \<open>Properties\<close>

subsection \<open>The minimum by key\<close>

lemma py_min_in: "py_min key b xs \<in> set (b # xs)"
  by (induction xs arbitrary: b) auto

lemma py_min_le_start: "key (py_min key b xs) \<le> key b"
proof (induction xs arbitrary: b)
  case Nil then show ?case by simp
next
  case (Cons a xs)
  show ?case using Cons.IH[where b = a] Cons.IH[where b = b] by (auto intro: order_trans)
qed

lemma py_min_split:
  "\<exists>pre post. b # xs = pre @ py_min key b xs # post
     \<and> (\<forall>x\<in>set pre. key (py_min key b xs) < key x)
     \<and> (\<forall>x\<in>set post. key (py_min key b xs) \<le> key x)"
proof (induction xs arbitrary: b)
  case Nil
  have "[b] = [] @ py_min key b [] # [] \<and> (\<forall>x\<in>set []. key (py_min key b []) < key x)
     \<and> (\<forall>x\<in>set []. key (py_min key b []) \<le> key x)" by simp
  then show ?case by blast
next
  case (Cons a xs)
  show ?case
  proof (cases "key a < key b")
    case True
    define m where "m = py_min key a xs"
    have step: "py_min key b (a # xs) = m" using True by (simp add: m_def)
    from Cons.IH[where b = a] obtain pre post where
      s: "a # xs = pre @ m # post"
      and p: "\<forall>x\<in>set pre. key m < key x"
      and q: "\<forall>x\<in>set post. key m \<le> key x" unfolding m_def by blast
    have "key m < key b"
      using py_min_le_start[of key a xs] True by (simp add: m_def)
    with p have p': "\<forall>x\<in>set (b # pre). key m < key x" by simp
    from s have "b # a # xs = (b # pre) @ m # post" by simp
    with p' q show ?thesis unfolding step by blast
  next
    case False
    define m where "m = py_min key b xs"
    have step: "py_min key b (a # xs) = m" using False by (simp add: m_def)
    from Cons.IH[where b = b] obtain pre post where
      s: "b # xs = pre @ m # post"
      and p: "\<forall>x\<in>set pre. key m < key x"
      and q: "\<forall>x\<in>set post. key m \<le> key x" unfolding m_def by blast
    show ?thesis
    proof (cases pre)
      case Nil
      with s have mb: "m = b" and px: "post = xs" by simp_all
      from q False mb px have q': "\<forall>x\<in>set (a # xs). key m \<le> key x" by auto
      have "b # a # xs = [] @ m # (a # xs)" using mb by simp
      moreover have "\<forall>x\<in>set ([]::'a list). key m < key x" by simp
      ultimately show ?thesis using q' unfolding step by blast
    next
      case (Cons c pre')
      with s have c: "c = b" and xs: "xs = pre' @ m # post" by simp_all
      from p Cons c have "key m < key b" by simp
      with False have "key m < key a" by simp
      with p Cons have p': "\<forall>x\<in>set (b # a # pre'). key m < key x" using c by simp
      from xs have "b # a # xs = (b # a # pre') @ m # post" by simp
      with p' q show ?thesis unfolding step by blast
    qed
  qed
qed

subsection \<open>Workload model\<close>

text \<open>
  Claim C9. For every capacity and load, the load percentage is the load divided by the
  capacity times 100, and 0 when the capacity is 0; a person is overloaded exactly when
  the load percentage exceeds 90; the available hours are the capacity minus the load,
  and never below 0. The three are functions of the person alone: they read no store and
  raise nothing.
\<close>

theorem workload_model_equations:
  "workload_percentage u
     = (if workload_capacity u = 0 then 0
        else current_workload u / of_int (workload_capacity u) * 100)
   \<and> workload_percentage (u\<lparr>workload_capacity := 0\<rparr>) = 0
   \<and> is_overloaded u = (workload_percentage u > 90)
   \<and> available_hours u = max 0 (of_int (workload_capacity u) - current_workload u)"
  by (simp add: workload_percentage_def is_overloaded_def available_hours_def)

subsection \<open>Fallback recommendation\<close>

text \<open>
  Claim C1. Without candidates the fallback answers the error \<^verbatim>\<open>Nenhum candidato
  disponivel\<close>. With candidates it answers a recommendation and no error: the
  recommended candidate \<open>best\<close> has the least load among all candidates, every candidate
  before it in the list has a strictly greater load (ties go to the first met), the match
  score is 50 and the list of warnings holds one warning.
\<close>

theorem fallback_recommendation_lowest_load:
  "fallback_recommendation [] = [(''error'', JStr msg_no_candidates)]
   \<and> (candidates \<noteq> [] \<longrightarrow>
        (\<exists>pre best post.
           candidates = pre @ best # post
           \<and> (\<forall>c\<in>set pre. workload_key best < workload_key c)
           \<and> (\<forall>c\<in>set post. workload_key best \<le> workload_key c)
           \<and> \<not> has_key ''error'' (fallback_recommendation candidates)
           \<and> dict_get (fallback_recommendation candidates) ''recommended_user_id''
               = json_of_int_opt (cand_id best)
           \<and> dict_get (fallback_recommendation candidates) ''recommended_user_name''
               = json_of_str_opt (cand_name best)
           \<and> dict_get (fallback_recommendation candidates) ''match_score'' = JNum 50
           \<and> dict_get (fallback_recommendation candidates) ''warnings''
               = JArr [JStr msg_fallback_warning]))"
proof (intro conjI impI)
  show "fallback_recommendation [] = [(''error'', JStr msg_no_candidates)]"
    by (simp add: fallback_recommendation_def)
next
  assume "candidates \<noteq> []"
  then obtain c cs where cands: "candidates = c # cs" by (cases candidates) auto
  define best where "best = py_min workload_key c cs"
  from py_min_split[of c cs workload_key] obtain pre post where
    s: "candidates = pre @ best # post"
    and p: "\<forall>x\<in>set pre. workload_key best < workload_key x"
    and q: "\<forall>x\<in>set post. workload_key best \<le> workload_key x"
    unfolding best_def cands by blast
  have f: "fallback_recommendation candidates =
     [(''recommended_user_id'', json_of_int_opt (cand_id best)),
      (''recommended_user_name'', json_of_str_opt (cand_name best)),
      (''match_score'', JNum 50),
      (''reasoning'', JStr msg_fallback_reasoning),
      (''pros'', JArr [JStr msg_fallback_pro]),
      (''cons'', JArr [JStr msg_fallback_con]),
      (''warnings'', JArr [JStr msg_fallback_warning])]"
    by (simp add: fallback_recommendation_def cands best_def Let_def)
  have "\<not> has_key ''error'' (fallback_recommendation candidates)"
    unfolding f by (simp add: has_key_def)
  moreover have "dict_get (fallback_recommendation candidates) ''recommended_user_id''
               = json_of_int_opt (cand_id best)"
    unfolding f by (simp add: dict_get_def)
  moreover have "dict_get (fallback_recommendation candidates) ''recommended_user_name''
               = json_of_str_opt (cand_name best)"
    unfolding f by (simp add: dict_get_def)
  moreover have "dict_get (fallback_recommendation candidates) ''match_score'' = JNum 50"
    unfolding f by (simp add: dict_get_def)
  moreover have "dict_get (fallback_recommendation candidates) ''warnings''
               = JArr [JStr msg_fallback_warning]"
    unfolding f by (simp add: dict_get_def)
  ultimately show "\<exists>pre best post.
           candidates = pre @ best # post
           \<and> (\<forall>c\<in>set pre. workload_key best < workload_key c)
           \<and> (\<forall>c\<in>set post. workload_key best \<le> workload_key c)
           \<and> \<not> has_key ''error'' (fallback_recommendation candidates)
           \<and> dict_get (fallback_recommendation candidates) ''recommended_user_id''
               = json_of_int_opt (cand_id best)
           \<and> dict_get (fallback_recommendation candidates) ''recommended_user_name''
               = json_of_str_opt (cand_name best)
           \<and> dict_get (fallback_recommendation candidates) ''match_score'' = JNum 50
           \<and> dict_get (fallback_recommendation candidates) ''warnings''
               = JArr [JStr msg_fallback_warning]"
    using s p q by blast
qed

theorem fallback_recommendation_lowest_load_witness:
  "sample_candidates \<noteq> []
   \<and> (\<exists>pre best post.
           sample_candidates = pre @ best # post
           \<and> (\<forall>c\<in>set pre. workload_key best < workload_key c)
           \<and> (\<forall>c\<in>set post. workload_key best \<le> workload_key c)
           \<and> dict_get (fallback_recommendation sample_candidates) ''recommended_user_id''
               = json_of_int_opt (cand_id best))
   \<and> dict_get (fallback_recommendation sample_candidates) ''recommended_user_id'' = JNum 3"
proof -
  have ne: "sample_candidates \<noteq> []" by (simp add: sample_candidates_def)
  have v: "dict_get (fallback_recommendation sample_candidates) ''recommended_user_id'' = JNum 3"
    by code_simp
  from fallback_recommendation_lowest_load[of sample_candidates] ne v show ?thesis by blast
qed

subsection \<open>Malformed oracle replies\<close>

lemma fallback_not_parse_error:
  "fallback_recommendation candidates \<noteq> [(''error'', JStr e), (''raw_response'', JStr r)]"
  by (cases candidates) (simp_all add: fallback_recommendation_def Let_def)

text \<open>
  Claim C2, as the code has it. When the oracle call raises, the fallback recommendation
  is returned. When the oracle replies with a text that the decoder rejects after the
  code fences are stripped, the result is the error dictionary that carries the message
  \<^verbatim>\<open>Erro ao processar resposta da IA\<close> and the raw reply; it is never the fallback
  recommendation.
\<close>

theorem malformed_reply_yields_parse_error:
  "(orc tsk candidates ctx = Inl e \<longrightarrow>
      generate_task_recommendation loads orc tsk candidates ctx
        = fallback_recommendation candidates)
   \<and> (\<not> build_prompt_raises candidates \<and> orc tsk candidates ctx = Inr response_text
        \<and> loads (strip_code_fences response_text) = Inl JSONDecodeError \<longrightarrow>
      generate_task_recommendation loads orc tsk candidates ctx
        = [(''error'', JStr msg_parse_error), (''raw_response'', JStr response_text)]
      \<and> generate_task_recommendation loads orc tsk candidates ctx
        \<noteq> fallback_recommendation candidates)"
proof (intro conjI impI)
  assume "orc tsk candidates ctx = Inl e"
  then show "generate_task_recommendation loads orc tsk candidates ctx
        = fallback_recommendation candidates"
    by (simp add: generate_task_recommendation_def)
next
  assume a: "\<not> build_prompt_raises candidates \<and> orc tsk candidates ctx = Inr response_text
        \<and> loads (strip_code_fences response_text) = Inl JSONDecodeError"
  then show r: "generate_task_recommendation loads orc tsk candidates ctx
        = [(''error'', JStr msg_parse_error), (''raw_response'', JStr response_text)]"
    by (simp add: generate_task_recommendation_def parse_json_response_def)
  show "generate_task_recommendation loads orc tsk candidates ctx
        \<noteq> fallback_recommendation candidates"
    unfolding r using fallback_not_parse_error[of candidates msg_parse_error response_text]
    by simp
qed

theorem malformed_reply_yields_parse_error_witness:
  "\<not> build_prompt_raises sample_candidates
   \<and> oracle_replying ''not json'' sample_task_data sample_candidates None = Inr ''not json''
   \<and> table_loads [] (strip_code_fences ''not json'') = Inl JSONDecodeError
   \<and> generate_task_recommendation (table_loads []) (oracle_replying ''not json'')
        sample_task_data sample_candidates None
        = [(''error'', JStr msg_parse_error), (''raw_response'', JStr ''not json'')]"
proof -
  have a: "\<not> build_prompt_raises sample_candidates" by code_simp
  have b: "oracle_replying ''not json'' sample_task_data sample_candidates None = Inr ''not json''"
    by (simp add: oracle_replying_def)
  have c: "table_loads [] (strip_code_fences ''not json'') = Inl JSONDecodeError"
    by (simp add: table_loads_def)
  from malformed_reply_yields_parse_error[where orc = "oracle_replying ''not json''"
      and tsk = sample_task_data and candidates = sample_candidates and ctx = None
      and response_text = "''not json''" and loads = "table_loads []"] a b c
  show ?thesis by blast
qed

text \<open>
  Claim C2 as stated fails: for a reply that is not JSON the result differs from the
  result for an oracle that raises.
\<close>

theorem malformed_reply_differs_from_fallback:
  "table_loads [] (strip_code_fences ''not json'') = Inl JSONDecodeError
   \<and> generate_task_recommendation (table_loads []) (oracle_replying ''not json'')
        sample_task_data sample_candidates None
     \<noteq> generate_task_recommendation (table_loads []) oracle_failing
        sample_task_data sample_candidates None"
  by code_simp

subsection \<open>Declining trend\<close>

text \<open>
  The means of three integers differ by a multiple of a third, never by exactly a half,
  so the strict comparison of the code and the comparison "at least 0.5 below" agree.
\<close>

lemma mean3: "mean [a, b, c] = of_int (a + b + c) / 3"
  by (simp add: mean_def)

lemma thirds_strict_iff:
  "(of_int r / 3 < of_int q / 3 - (1 / 2 :: rat)) = (of_int r / 3 \<le> of_int q / 3 - (1 / 2 :: rat))"
proof -
  have "(of_int r / 3 < of_int q / 3 - (1 / 2 :: rat)) = ((of_int (2 * r) :: rat) < of_int (2 * q - 3))"
    by (simp add: field_simps)
  also have "\<dots> = (2 * r < 2 * q - 3)" by (simp only: of_int_less_iff)
  also have "\<dots> = (2 * r \<le> 2 * q - 3)" by presburger
  also have "\<dots> = ((of_int (2 * r) :: rat) \<le> of_int (2 * q - 3))" by (simp only: of_int_le_iff)
  also have "\<dots> = (of_int r / 3 \<le> of_int q / 3 - (1 / 2 :: rat))"
    by (simp add: field_simps)
  finally show ?thesis .
qed

lemma length3_cases: "length xs = 3 \<Longrightarrow> \<exists>a b c. xs = [a, b, c]"
  by (cases xs; simp; cases "tl xs"; simp; cases "tl (tl xs)"; auto)

lemma mean_length3:
  assumes "length xs = 3" "length ys = 3"
  shows "(mean xs < mean ys - 1 / 2) = (mean xs \<le> mean ys - 1 / 2)"
proof -
  from length3_cases[OF assms(1)] obtain a b c where xs: "xs = [a, b, c]" by blast
  from length3_cases[OF assms(2)] obtain a' b' c' where ys: "ys = [a', b', c']" by blast
  show ?thesis unfolding xs ys mean3 by (rule thirds_strict_iff)
qed

text \<open>
  Claim C4. For at least three scores in chronological order, a decline is declared
  exactly when the mean of the last three is at least 0.5 below the mean of the first
  three. With fewer than three checks in the window, burnout detection makes no pattern
  judgement and answers \<^verbatim>\<open>has_pattern = False\<close> with the message that the data
  are insufficient.
\<close>

theorem declining_trend_threshold:
  "(3 \<le> length scores \<longrightarrow>
      check_declining_trend scores
        = (mean (drop (length scores - 3) scores) \<le> mean (take 3 scores) - 1 / 2))
   \<and> (length (recent_checks_asc ev d uid) < 3 \<longrightarrow>
        detect_burnout_patterns ev d uid threshold
          = [(''has_pattern'', JBool False), (''message'', JStr msg_insufficient_data)])"
proof (intro conjI impI)
  assume l: "3 \<le> length scores"
  then have "length (drop (length scores - 3) scores) = 3" "length (take 3 scores) = 3" by simp_all
  from mean_length3[OF this] l
  show "check_declining_trend scores
        = (mean (drop (length scores - 3) scores) \<le> mean (take 3 scores) - 1 / 2)"
    by (simp add: check_declining_trend_def Let_def)
next
  assume "length (recent_checks_asc ev d uid) < 3"
  then show "detect_burnout_patterns ev d uid threshold
          = [(''has_pattern'', JBool False), (''message'', JStr msg_insufficient_data)]"
    by (simp add: detect_burnout_patterns_def Let_def)
qed

theorem declining_trend_threshold_witness:
  "3 \<le> length [5, 5, 5, 1, 1, 1 :: int]
   \<and> check_declining_trend [5, 5, 5, 1, 1, 1]
   \<and> mean (drop (length [5, 5, 5, 1, 1, 1 :: int] - 3) [5, 5, 5, 1, 1, 1])
        \<le> mean (take 3 [5, 5, 5, 1, 1, 1]) - 1 / 2
   \<and> \<not> check_declining_trend [3, 3, 3, 3, 3, 3]
   \<and> length (recent_checks_asc sample_env sample_db 2) < 3
   \<and> detect_burnout_patterns sample_env sample_db 2 70
        = [(''has_pattern'', JBool False), (''message'', JStr msg_insufficient_data)]"
proof -
  have a: "3 \<le> length [5, 5, 5, 1, 1, 1 :: int]" by simp
  have b: "check_declining_trend [5, 5, 5, 1, 1, 1]" by code_simp
  have c: "\<not> check_declining_trend [3, 3, 3, 3, 3, 3]" by code_simp
  have e: "length (recent_checks_asc sample_env sample_db 2) < 3" by code_simp
  from declining_trend_threshold[of "[5, 5, 5, 1, 1, 1]" sample_env sample_db 2 70] a b c e
  show ?thesis by blast
qed

subsection \<open>Rebalancing: dry run\<close>

text \<open>
  Claim C5. A rebalance run as a dry run returns the store it was given: every person's
  load and every work item's assignee, status and recommendation fields are unchanged,
  whatever the moves proposed. For a team with members the report lists the proposed
  moves and says that they were not applied.
\<close>

theorem dry_run_leaves_store_unchanged:
  "snd (rebalance_team_workload ev d team_id True) = d
   \<and> (case fst (rebalance_team_workload ev d team_id True) of
         Inl err \<Rightarrow> active_team_members d team_id = []
       | Inr report \<Rightarrow>
           recommendations report
             = propose_moves ev d team_id (filter is_overloaded (active_team_members d team_id))
           \<and> \<not> applied report)"
  by (simp add: rebalance_team_workload_def Let_def)

subsection \<open>Team wellbeing summary\<close>

lemma foldl_filter_skip:
  "(\<And>a x. x \<in> set xs \<Longrightarrow> \<not> P x \<Longrightarrow> f a x = a) \<Longrightarrow> foldl f a xs = foldl f a (filter P xs)"
  by (induction xs arbitrary: a) simp_all

lemma summary_step_no_check:
  "last_check_since d since_date (user_id m) = None \<Longrightarrow> summary_step ev d since_date acc m = acc"
  by (simp add: summary_step_def)

lemma analyse_members_skip:
  assumes "last_check_since d since_date uid = None"
  shows "analyse_members ev d since_date members
           = analyse_members ev d since_date (filter (\<lambda>u. user_id u \<noteq> uid) members)"
  unfolding analyse_members_def
  by (rule foldl_filter_skip) (use assms in \<open>simp add: summary_step_no_check\<close>)

lemma summary_step_members:
  "md_user_id ` set (acc_members (summary_step ev d since_date acc m))
     \<subseteq> md_user_id ` set (acc_members acc)
        \<union> (if last_check_since d since_date (user_id m) = None then {} else {user_id m})"
  by (auto simp: summary_step_def Let_def split: option.splits)

lemma foldl_summary_members:
  "md_user_id ` set (acc_members (foldl (summary_step ev d since_date) acc ms))
     \<subseteq> md_user_id ` set (acc_members acc)
        \<union> {uid. last_check_since d since_date uid \<noteq> None}"
proof (induction ms arbitrary: acc)
  case Nil
  show ?case by simp
next
  case (Cons m ms)
  have "md_user_id ` set (acc_members (foldl (summary_step ev d since_date) acc (m # ms)))
      \<subseteq> md_user_id ` set (acc_members (summary_step ev d since_date acc m))
        \<union> {uid. last_check_since d since_date uid \<noteq> None}"
    using Cons.IH[of "summary_step ev d since_date acc m"] by simp
  also have "\<dots> \<subseteq> md_user_id ` set (acc_members acc)
        \<union> {uid. last_check_since d since_date uid \<noteq> None}"
    using summary_step_members[of ev d since_date acc m] by (auto split: if_splits)
  finally show ?case .
qed

lemma summary_step_alerts_mono:
  "set (acc_alerts acc) \<subseteq> set (acc_alerts (summary_step ev d since_date acc m))"
  by (auto simp: summary_step_def Let_def split: option.splits)

lemma foldl_summary_alerts_mono:
  "set (acc_alerts acc) \<subseteq> set (acc_alerts (foldl (summary_step ev d since_date) acc ms))"
proof (induction ms arbitrary: acc)
  case Nil
  show ?case by simp
next
  case (Cons m ms)
  show ?case
    using Cons.IH[of "summary_step ev d since_date acc m"]
      summary_step_alerts_mono[of acc ev d since_date m] by auto
qed

lemma summary_step_overload_alert:
  "last_check_since d since_date (user_id m) \<noteq> None \<Longrightarrow> is_overloaded m
     \<Longrightarrow> overload_alert m \<in> set (acc_alerts (summary_step ev d since_date acc m))"
  by (auto simp: summary_step_def Let_def split: option.splits)

lemma foldl_summary_overload_alert:
  "m \<in> set ms \<Longrightarrow> last_check_since d since_date (user_id m) \<noteq> None \<Longrightarrow> is_overloaded m
     \<Longrightarrow> overload_alert m \<in> set (acc_alerts (foldl (summary_step ev d since_date) acc ms))"
proof (induction ms arbitrary: acc)
  case Nil
  then show ?case by simp
next
  case (Cons x ms)
  show ?case
  proof (cases "m = x")
    case True
    with Cons.prems have "overload_alert m \<in> set (acc_alerts (summary_step ev d since_date acc x))"
      using summary_step_overload_alert by blast
    then show ?thesis
      using foldl_summary_alerts_mono[of "summary_step ev d since_date acc x" ev d since_date ms]
      by auto
  next
    case False
    with Cons.prems have "m \<in> set ms" by simp
    from Cons.IH[OF this Cons.prems(2,3)] show ?thesis by simp
  qed
qed

text \<open>
  Claim C10. A team member without a check-in inside the window is counted in the team
  size and is otherwise invisible: the summary equals the one computed over the members
  with another id, and no entry of the members' analysis carries the member's id. An
  overloaded member with a check-in inside the window raises an overload alert; without
  one, the alerts are those of the other members.
\<close>

theorem member_without_checkin_is_invisible:
  assumes "m \<in> set (active_team_members d team_id)"
  shows "\<exists>s. get_team_wellbeing_summary ev d team_id days = Inr s
     \<and> ts_team_size s = length (active_team_members d team_id)
     \<and> (last_check_since d (env_now ev - days * seconds_per_day) (user_id m) = None \<longrightarrow>
          s = summary_of_acc ev (length (active_team_members d team_id)) days
                (analyse_members ev d (env_now ev - days * seconds_per_day)
                   (filter (\<lambda>u. user_id u \<noteq> user_id m) (active_team_members d team_id)))
          \<and> user_id m \<notin> md_user_id ` set (ts_members_analysis s))
     \<and> (last_check_since d (env_now ev - days * seconds_per_day) (user_id m) \<noteq> None
          \<and> is_overloaded m \<longrightarrow> overload_alert m \<in> set (ts_alerts s))"
proof -
  define team where "team = active_team_members d team_id"
  define since_date where "since_date = env_now ev - days * seconds_per_day"
  define s where "s = summary_of_acc ev (length team) days (analyse_members ev d since_date team)"
  from assms have ne: "team \<noteq> []" unfolding team_def by auto
  have r: "get_team_wellbeing_summary ev d team_id days = Inr s"
    using ne by (simp add: get_team_wellbeing_summary_def Let_def s_def team_def since_date_def)
  have sz: "ts_team_size s = length team" by (simp add: s_def summary_of_acc_def)
  have inv: "s = summary_of_acc ev (length team) days
                (analyse_members ev d since_date (filter (\<lambda>u. user_id u \<noteq> user_id m) team))
          \<and> user_id m \<notin> md_user_id ` set (ts_members_analysis s)"
    if none: "last_check_since d since_date (user_id m) = None"
  proof
    show "s = summary_of_acc ev (length team) days
                (analyse_members ev d since_date (filter (\<lambda>u. user_id u \<noteq> user_id m) team))"
      unfolding s_def using analyse_members_skip[OF none, of ev team] by simp
    have "md_user_id ` set (ts_members_analysis s)
            \<subseteq> {uid. last_check_since d since_date uid \<noteq> None}"
      using foldl_summary_members[of ev d since_date empty_acc team]
      by (simp add: s_def summary_of_acc_def analyse_members_def empty_acc_def)
    with none show "user_id m \<notin> md_user_id ` set (ts_members_analysis s)" by blast
  qed
  have al: "overload_alert m \<in> set (ts_alerts s)"
    if "last_check_since d since_date (user_id m) \<noteq> None \<and> is_overloaded m"
    using foldl_summary_overload_alert[of m team d since_date ev empty_acc] that assms
    by (simp add: s_def summary_of_acc_def analyse_members_def team_def)
  show ?thesis
  proof (intro exI[of _ s] conjI impI)
    show "get_team_wellbeing_summary ev d team_id days = Inr s" by (rule r)
    show "ts_team_size s = length (active_team_members d team_id)"
      using sz by (simp add: team_def)
  next
    assume "last_check_since d (env_now ev - days * seconds_per_day) (user_id m) = None"
    then have n: "last_check_since d since_date (user_id m) = None" by (simp add: since_date_def)
    from conjunct1[OF inv[OF n]]
    show "s = summary_of_acc ev (length (active_team_members d team_id)) days
                (analyse_members ev d (env_now ev - days * seconds_per_day)
                   (filter (\<lambda>u. user_id u \<noteq> user_id m) (active_team_members d team_id)))"
      unfolding team_def since_date_def .
    from inv[OF n] show "user_id m \<notin> md_user_id ` set (ts_members_analysis s)" by (rule conjunct2)
  next
    assume "last_check_since d (env_now ev - days * seconds_per_day) (user_id m) \<noteq> None
          \<and> is_overloaded m"
    then show "overload_alert m \<in> set (ts_alerts s)"
      using al by (simp add: since_date_def)
  qed
qed

theorem member_without_checkin_is_invisible_witness:
  "sample_maria \<in> set (active_team_members sample_db 1)
   \<and> is_overloaded sample_maria
   \<and> last_check_since sample_db (env_now sample_env - 7 * seconds_per_day) (user_id sample_maria) = None
   \<and> sample_ana \<in> set (active_team_members sample_db 1)
   \<and> is_overloaded sample_ana
   \<and> last_check_since sample_db (env_now sample_env - 7 * seconds_per_day) (user_id sample_ana) \<noteq> None
   \<and> (\<exists>s. get_team_wellbeing_summary sample_env sample_db 1 7 = Inr s
         \<and> ts_team_size s = 3
         \<and> map md_user_id (ts_members_analysis s) = [2, 3]
         \<and> user_id sample_maria \<notin> md_user_id ` set (ts_members_analysis s)
         \<and> overload_alert sample_maria \<notin> set (ts_alerts s)
         \<and> overload_alert sample_ana \<in> set (ts_alerts s))"
proof -
  have m: "sample_maria \<in> set (active_team_members sample_db 1)" by code_simp
  have mo: "is_overloaded sample_maria" by code_simp
  have mn: "last_check_since sample_db (env_now sample_env - 7 * seconds_per_day)
              (user_id sample_maria) = None" by code_simp
  have a: "sample_ana \<in> set (active_team_members sample_db 1)" by code_simp
  have ao: "is_overloaded sample_ana" by code_simp
  have an: "last_check_since sample_db (env_now sample_env - 7 * seconds_per_day)
              (user_id sample_ana) \<noteq> None" by code_simp
  have v: "case get_team_wellbeing_summary sample_env sample_db 1 7 of
             Inr s \<Rightarrow> map md_user_id (ts_members_analysis s) = [2, 3]
                      \<and> overload_alert sample_maria \<notin> set (ts_alerts s)
           | Inl err \<Rightarrow> False" by code_simp
  have l: "length (active_team_members sample_db 1) = 3" by code_simp
  from member_without_checkin_is_invisible[OF m, of sample_env 7] mn obtain s where
    s: "get_team_wellbeing_summary sample_env sample_db 1 7 = Inr s"
    and sz: "ts_team_size s = length (active_team_members sample_db 1)"
    and inv: "user_id sample_maria \<notin> md_user_id ` set (ts_members_analysis s)" by blast
  from member_without_checkin_is_invisible[OF a, of sample_env 7] an ao s
  have al: "overload_alert sample_ana \<in> set (ts_alerts s)" by auto
  from v s have "map md_user_id (ts_members_analysis s) = [2, 3]"
    "overload_alert sample_maria \<notin> set (ts_alerts s)" by simp_all
  with m mo mn a ao an s sz l inv al show ?thesis by auto
qed

subsection \<open>Rebalancing: the items considered\<close>

lemma sorted_take_drop:
  assumes "sorted (map f xs)" "x \<in> set (take n xs)" "y \<in> set (drop n xs)"
  shows "f x \<le> f y"
proof -
  have "sorted (map f (take n xs) @ map f (drop n xs))"
    using assms(1) by (simp flip: map_append)
  then show ?thesis using assms(2,3) by (auto simp: sorted_append)
qed

lemma priority_key_monotone:
  assumes "key LOW < key MEDIUM" "key MEDIUM < key HIGH" "key HIGH < (key URGENT :: int)"
    and "priority_level p < priority_level q"
  shows "key p < key q"
  using assms by (cases p; cases q; simp add: priority_level_def)

text \<open>
  What the code guarantees on every store: the items considered are the first three of
  the member's pending items in the store's own descending order of the priority column.
\<close>

lemma considered_tasks_in_store_order:
  "length (considered_tasks ev d u) \<le> 3
   \<and> pending_tasks ev d u = considered_tasks ev d u @ drop 3 (pending_tasks ev d u)
   \<and> set (pending_tasks ev d u)
       = {t \<in> set (tasks d). assigned_to t = Some (user_id u) \<and> status t = PENDING}
   \<and> (\<forall>t\<in>set (considered_tasks ev d u). \<forall>t'\<in>set (drop 3 (pending_tasks ev d u)).
         env_priority_key ev (priority t') \<le> env_priority_key ev (priority t))"
proof (intro conjI ballI)
  show "length (considered_tasks ev d u) \<le> 3" by (simp add: considered_tasks_def)
  show "pending_tasks ev d u = considered_tasks ev d u @ drop 3 (pending_tasks ev d u)"
    by (simp add: considered_tasks_def)
  show "set (pending_tasks ev d u)
         = {t \<in> set (tasks d). assigned_to t = Some (user_id u) \<and> status t = PENDING}"
    by (auto simp: pending_tasks_def)
next
  fix t t'
  assume t: "t \<in> set (considered_tasks ev d u)" and t': "t' \<in> set (drop 3 (pending_tasks ev d u))"
  have "sorted (map (\<lambda>t. - env_priority_key ev (priority t)) (pending_tasks ev d u))"
    unfolding pending_tasks_def by (rule sorted_sort_key)
  from sorted_take_drop[OF this, of t 3 t'] t t'
  show "env_priority_key ev (priority t') \<le> env_priority_key ev (priority t)"
    by (simp add: considered_tasks_def)
qed

text \<open>
  On a store that orders the column by the position of the value in the declaration,
  as a native enumeration type does, that order is urgent above high above medium above
  low, and no considered item has a lower priority than a pending item left out.
\<close>

lemma considered_tasks_in_declaration_order:
  assumes "env_priority_key ev LOW < env_priority_key ev MEDIUM"
    and "env_priority_key ev MEDIUM < env_priority_key ev HIGH"
    and "env_priority_key ev HIGH < env_priority_key ev URGENT"
    and t: "t \<in> set (considered_tasks ev d u)"
    and t': "t' \<in> set (drop 3 (pending_tasks ev d u))"
  shows "priority_level (priority t') \<le> priority_level (priority t)"
proof (rule ccontr)
  assume "\<not> priority_level (priority t') \<le> priority_level (priority t)"
  then have "priority_level (priority t) < priority_level (priority t')" by simp
  from priority_key_monotone[OF assms(1-3) this] considered_tasks_in_store_order[of ev d u] t t'
  show False by fastforce
qed

lemma considered_tasks_declaration_example:
  "map task_id (considered_tasks sample_env busy_db sample_ana) = [2, 4, 5]
   \<and> map task_id (drop 3 (pending_tasks sample_env busy_db sample_ana)) = [3, 1]"
  by code_simp

text \<open>
  Claim C3 fails on a store that keeps the priority as text. The column is declared
  \<^verbatim>\<open>Enum(TaskPriority)\<close>, which stores the member names; where the store has no
  native enumeration type they are kept as text and \<^verbatim>\<open>ORDER BY priority DESC\<close>
  is reverse alphabetical: URGENT, MEDIUM, LOW, HIGH. Ana holds five pending items of
  priorities low, urgent, medium, high and high (ids 1 to 5): the three considered are
  the urgent, the medium and the low one, and both high items are left out.
\<close>

theorem considered_tasks_text_order:
  "map priority (filter (\<lambda>t. assigned_to t = Some (user_id sample_ana) \<and> status t = PENDING)
                   (tasks busy_db)) = [LOW, URGENT, MEDIUM, HIGH, HIGH]
   \<and> map (\<lambda>t. (task_id t, priority t)) (considered_tasks text_ordered_env busy_db sample_ana)
       = [(2, URGENT), (3, MEDIUM), (1, LOW)]
   \<and> map (\<lambda>t. (task_id t, priority t)) (drop 3 (pending_tasks text_ordered_env busy_db sample_ana))
       = [(4, HIGH), (5, HIGH)]
   \<and> priority_level LOW < priority_level HIGH"
  by code_simp

subsection \<open>Lookups and row updates\<close>

lemma find_Some_mem: "find P xs = Some x \<Longrightarrow> x \<in> set xs \<and> P x"
  by (induction xs) (auto split: if_splits)

lemma find_map_preserve:
  "(\<And>x. P (g x) = P x) \<Longrightarrow> find P (map g xs) = map_option g (find P xs)"
  by (induction xs) simp_all

lemma find_update_task_row:
  assumes "\<And>t. task_id (f t) = task_id t"
  shows "find (\<lambda>t. task_id t = k) (update_task_row a f ts)
           = map_option (\<lambda>t. if task_id t = a then f t else t) (find (\<lambda>t. task_id t = k) ts)"
  unfolding update_task_row_def by (rule find_map_preserve) (simp add: assms)

lemma find_update_user:
  assumes "\<And>u. Q (f u) = Q u"
  shows "find Q (update_user a f us)
           = map_option (\<lambda>u. if user_id u = a then f u else u) (find Q us)"
  unfolding update_user_def by (rule find_map_preserve) (simp add: assms)

lemma find_distinct:
  "distinct (map f xs) \<Longrightarrow> x \<in> set xs \<Longrightarrow> find (\<lambda>y. f y = f x) xs = Some x"
  by (induction xs) (auto simp: rev_image_eqI)

lemma find_rev_unique:
  assumes "distinct (map f xs)" "x \<in> set xs" "P x"
  shows "find (\<lambda>y. f y = f x \<and> P y) (rev xs) = Some x"
proof -
  have "find (\<lambda>y. f y = f x \<and> P y) (rev xs) \<noteq> None"
    using assms(2,3) by (auto simp: find_None_iff)
  then obtain y where y: "find (\<lambda>y. f y = f x \<and> P y) (rev xs) = Some y" by blast
  from find_Some_mem[OF y] have "y \<in> set xs" "f y = f x" by simp_all
  with assms(1,2) have "y = x" by (auto simp: distinct_map inj_on_def)
  with y show ?thesis by simp
qed

text \<open>A lookup by a key sees only the keys of the rows.\<close>

lemma find_by_key:
  "map_option k (find (\<lambda>x. Q (k x)) xs) = find Q (map k xs)"
  by (induction xs) simp_all

lemma find_by_key_cong:
  assumes "map k xs = map k ys"
  shows "map_option k (find (\<lambda>x. Q (k x)) xs) = map_option k (find (\<lambda>x. Q (k x)) ys)"
  by (simp add: find_by_key assms)

lemma resolve_move_cong:
  assumes t: "map task_key (tasks d') = map task_key (tasks d)"
    and u: "map user_key (users d') = map user_key (users d)"
  shows "resolve_move ev d' mv = resolve_move ev d mv"
proof -
  have ft: "map_option task_key (find (\<lambda>x. task_id x = mv_task_id mv) (tasks d'))
          = map_option task_key (find (\<lambda>x. task_id x = mv_task_id mv) (tasks d))"
    using find_by_key_cong[OF t, of "\<lambda>k. fst k = mv_task_id mv"] by (simp add: task_key_def)
  have fo: "map_option user_key (find (\<lambda>x. username x = mv_from_user mv) (users d'))
          = map_option user_key (find (\<lambda>x. username x = mv_from_user mv) (users d))"
    using find_by_key_cong[OF u, of "\<lambda>k. fst k = mv_from_user mv"] by (simp add: user_key_def)
  have fn: "map_option user_key (user_by_id ev d' (mv_to_user_id mv))
          = map_option user_key (user_by_id ev d (mv_to_user_id mv))"
  proof (cases "env_sql_user_id ev (mv_to_user_id mv)")
    case None
    then show ?thesis by (simp add: user_by_id_def)
  next
    case (Some n)
    with find_by_key_cong[OF u, of "\<lambda>k. snd k = n"] show ?thesis
      by (simp add: user_by_id_def user_key_def)
  qed
  show ?thesis
    using ft fo fn
    unfolding resolve_move_def
    by (cases "find (\<lambda>x. task_id x = mv_task_id mv) (tasks d')";
        cases "find (\<lambda>x. task_id x = mv_task_id mv) (tasks d)";
        cases "find (\<lambda>x. username x = mv_from_user mv) (users d')";
        cases "find (\<lambda>x. username x = mv_from_user mv) (users d)";
        cases "user_by_id ev d' (mv_to_user_id mv)";
        cases "user_by_id ev d (mv_to_user_id mv)")
       (auto simp: task_key_def user_key_def)
qed

subsection \<open>The apply loop keeps keys and estimates\<close>

lemma keys_update_task_row:
  "(\<And>t. task_key (f t) = task_key t) \<Longrightarrow> map task_key (update_task_row a f ts) = map task_key ts"
  by (simp add: update_task_row_def)

lemma keys_update_user:
  "(\<And>u. user_key (f u) = user_key u) \<Longrightarrow> map user_key (update_user a f us) = map user_key us"
  by (simp add: update_user_def)

lemma keys_apply_move:
  "map task_key (tasks (apply_move ev d mv)) = map task_key (tasks d)"
  "map user_key (users (apply_move ev d mv)) = map user_key (users d)"
  by (auto simp: apply_move_def Let_def keys_update_task_row keys_update_user task_key_def
      user_key_def split: option.splits)

lemma keys_foldl_apply_move:
  "map task_key (tasks (foldl (apply_move ev) d ms)) = map task_key (tasks d)"
  "map user_key (users (foldl (apply_move ev) d ms)) = map user_key (users d)"
  by (induction ms arbitrary: d) (simp_all add: keys_apply_move)

lemma keys_apply_resolved:
  "map task_key (tasks (apply_resolved d e)) = map task_key (tasks d)"
  "map user_key (users (apply_resolved d e)) = map user_key (users d)"
  by (simp_all add: apply_resolved_def keys_update_task_row keys_update_user task_key_def
      user_key_def add_load_def)

lemma keys_apply_exact:
  "map task_key (tasks (apply_exact ev d mv)) = map task_key (tasks d)"
  "map user_key (users (apply_exact ev d mv)) = map user_key (users d)"
  by (simp_all add: apply_exact_def keys_apply_resolved split: option.splits)

lemma resolve_move_apply_move: "resolve_move ev (apply_move ev d m) mv = resolve_move ev d mv"
  by (rule resolve_move_cong) (rule keys_apply_move)+

lemma resolve_move_foldl:
  "resolve_move ev (foldl (apply_move ev) d ms) mv = resolve_move ev d mv"
  by (rule resolve_move_cong) (rule keys_foldl_apply_move)+

lemma resolve_move_apply_exact: "resolve_move ev (apply_exact ev d m) mv = resolve_move ev d mv"
  by (rule resolve_move_cong) (rule keys_apply_exact)+

lemma user_ids_of_keys: "map user_key us' = map user_key us \<Longrightarrow> map user_id us' = map user_id us"
proof -
  assume "map user_key us' = map user_key us"
  then have "map (snd \<circ> user_key) us' = map (snd \<circ> user_key) us"
    by (metis map_map)
  then show ?thesis by (simp add: comp_def user_key_def)
qed

subsection \<open>Assignees after the apply loop\<close>

lemma resolve_move_task: "resolve_move ev d mv = Some e \<Longrightarrow> rm_task e = mv_task_id mv"
  by (auto simp: resolve_move_def split: option.splits dest: find_Some_mem)

lemma resolve_move_task_exists:
  "resolve_move ev d mv = Some e
   \<Longrightarrow> \<exists>t. find (\<lambda>t. task_id t = mv_task_id mv) (tasks d) = Some t
            \<and> rm_hours e = hours_or_zero (estimated_hours t)"
  by (auto simp: resolve_move_def split: option.splits)

lemma tasks_apply_move:
  "tasks (apply_move ev d mv)
     = (case resolve_move ev d mv of
          None \<Rightarrow> tasks d
        | Some e \<Rightarrow> update_task_row (rm_task e) (\<lambda>x. x\<lparr>assigned_to := Some (rm_new e)\<rparr>) (tasks d))"
  by (auto simp: apply_move_def resolve_move_def Let_def split: option.splits)

lemma assignee_of_apply_move:
  "assignee_of (apply_move ev d mv) tid
     = (case resolve_move ev d mv of
          None \<Rightarrow> assignee_of d tid
        | Some e \<Rightarrow> if mv_task_id mv = tid then Some (Some (rm_new e)) else assignee_of d tid)"
proof (cases "resolve_move ev d mv")
  case None
  then show ?thesis by (simp add: assignee_of_def tasks_apply_move)
next
  case (Some e)
  from resolve_move_task[OF Some] have k: "rm_task e = mv_task_id mv" .
  from resolve_move_task_exists[OF Some] obtain t where
    t: "find (\<lambda>t. task_id t = mv_task_id mv) (tasks d) = Some t" by blast
  have "find (\<lambda>t. task_id t = tid) (tasks (apply_move ev d mv))
        = map_option (\<lambda>t. if task_id t = rm_task e then t\<lparr>assigned_to := Some (rm_new e)\<rparr> else t)
            (find (\<lambda>t. task_id t = tid) (tasks d))"
    by (simp add: tasks_apply_move Some find_update_task_row)
  then show ?thesis
    using Some k t
    by (cases "find (\<lambda>t. task_id t = tid) (tasks d)")
       (auto simp: assignee_of_def dest: find_Some_mem)
qed

text \<open>After the whole loop, an item's assignee is that of the last resolved move of the item.\<close>

lemma assignee_of_foldl:
  "assignee_of (foldl (apply_move ev) d ms) tid
     = (case find (\<lambda>mv. mv_task_id mv = tid \<and> resolve_move ev d mv \<noteq> None) (rev ms) of
          None \<Rightarrow> assignee_of d tid
        | Some mv \<Rightarrow> Some (Some (rm_new (the (resolve_move ev d mv)))))"
proof (induction ms rule: rev_induct)
  case Nil
  show ?case by simp
next
  case (snoc m ms)
  show ?case
    by (cases "resolve_move ev d m")
       (auto simp: assignee_of_apply_move resolve_move_foldl snoc.IH)
qed

lemma assignee_of_apply_moves:
  "assignee_of (apply_moves ev d ms) tid = assignee_of (foldl (apply_move ev) d ms) tid"
  by (simp add: apply_moves_def Let_def assignee_of_def)

subsection \<open>The proposed moves\<close>

lemma distinct_concat_keyed:
  assumes "distinct (map k xs)"
    and "\<And>x. x \<in> set xs \<Longrightarrow> distinct (G x)"
    and "\<And>x y. x \<in> set xs \<Longrightarrow> y \<in> set (G x) \<Longrightarrow> h y = k x"
  shows "distinct (concat (map G xs))"
  using assms
proof (induction xs)
  case Nil
  show ?case by simp
next
  case (Cons x xs)
  have "distinct (concat (map G xs))"
    using Cons.IH Cons.prems by simp
  moreover have "distinct (G x)" using Cons.prems(2) by simp
  moreover have "set (G x) \<inter> set (concat (map G xs)) = {}"
  proof (rule ccontr)
    assume "set (G x) \<inter> set (concat (map G xs)) \<noteq> {}"
    then obtain y x' where y: "y \<in> set (G x)" and x': "x' \<in> set xs" and y': "y \<in> set (G x')"
      by auto
    from Cons.prems(3)[of x y] y have "h y = k x" by simp
    moreover from Cons.prems(3)[of x' y] x' y' have "h y = k x'" by simp
    ultimately have "k x \<in> k ` set xs" using x' by (metis imageI)
    with Cons.prems(1) show False by simp
  qed
  ultimately show ?case by simp
qed

lemma task_ids_propose_move:
  "map mv_task_id (propose_move ev d team_id ou t)
     = (if propose_move ev d team_id ou t \<noteq> [] then [task_id t] else [])"
  by (simp add: propose_move_def Let_def)

lemma task_ids_propose_moves_of_user:
  "concat (map (\<lambda>t. map mv_task_id (propose_move ev d team_id ou t)) ts)
     = map task_id (filter (\<lambda>t. propose_move ev d team_id ou t \<noteq> []) ts)"
  by (induction ts) (simp_all add: task_ids_propose_move)

lemma distinct_map_sort_key: "distinct (map f (sort_key k xs)) = distinct (map f xs)"
  by (simp add: distinct_map)

lemma distinct_task_ids_considered:
  assumes "distinct (map task_id (tasks d))"
  shows "distinct (map task_id (considered_tasks ev d ou))"
proof -
  have "distinct (map task_id (pending_tasks ev d ou))"
    unfolding pending_tasks_def distinct_map_sort_key using assms by (rule distinct_map_filter)
  then show ?thesis
    unfolding considered_tasks_def by (simp add: take_map[symmetric])
qed

lemma considered_task_holder:
  assumes "t \<in> set (considered_tasks ev d ou)"
  shows "t \<in> set (tasks d)" "assigned_to t = Some (user_id ou)"
proof -
  from assms have "t \<in> set (pending_tasks ev d ou)"
    unfolding considered_tasks_def by (rule in_set_takeD)
  then show "t \<in> set (tasks d)" "assigned_to t = Some (user_id ou)"
    by (simp_all add: pending_tasks_def)
qed

lemma assignee_of_member:
  "distinct (map task_id (tasks d)) \<Longrightarrow> t \<in> set (tasks d)
   \<Longrightarrow> assignee_of d (task_id t) = Some (assigned_to t)"
  by (simp add: assignee_of_def find_distinct[where f = task_id])

lemma distinct_task_ids_propose_moves:
  assumes "distinct (map task_id (tasks d))" "distinct (map user_id ovl)"
  shows "distinct (map mv_task_id (propose_moves ev d team_id ovl))"
proof -
  let ?G = "\<lambda>ou. map task_id (filter (\<lambda>t. propose_move ev d team_id ou t \<noteq> [])
                                  (considered_tasks ev d ou))"
  have eq: "map mv_task_id (propose_moves ev d team_id ovl) = concat (map ?G ovl)"
    by (simp add: propose_moves_def map_concat comp_def task_ids_propose_moves_of_user)
  have "distinct (concat (map ?G ovl))"
  proof (rule distinct_concat_keyed[where k = "\<lambda>ou. Some (Some (user_id ou))"
        and h = "assignee_of d"])
    show "distinct (map (\<lambda>ou. Some (Some (user_id ou))) ovl)"
      using assms(2) by (simp add: distinct_map inj_on_def)
  next
    fix ou
    show "distinct (?G ou)"
      using distinct_task_ids_considered[OF assms(1), of ev ou] by (rule distinct_map_filter)
  next
    fix ou y
    assume "y \<in> set (?G ou)"
    then obtain t where t: "t \<in> set (considered_tasks ev d ou)" and y: "y = task_id t" by auto
    from considered_task_holder[OF t] assignee_of_member[OF assms(1)] y
    show "assignee_of d y = Some (Some (user_id ou))" by simp
  qed
  with eq show ?thesis by simp
qed

lemma propose_moves_origin:
  assumes "mv \<in> set (propose_moves ev d team_id ovl)"
  shows "\<exists>ou\<in>set ovl. \<exists>t\<in>set (tasks d).
           assigned_to t = Some (user_id ou) \<and> mv_task_id mv = task_id t
           \<and> mv_from_user mv = username ou
           \<and> \<not> py_eq_int (mv_to_user_id mv) (user_id ou)"
proof -
  from assms obtain ou t where ou: "ou \<in> set ovl"
    and t: "t \<in> set (considered_tasks ev d ou)"
    and mv: "mv \<in> set (propose_move ev d team_id ou t)"
    by (auto simp: propose_moves_def)
  from mv have "mv_task_id mv = task_id t \<and> mv_from_user mv = username ou
           \<and> \<not> py_eq_int (mv_to_user_id mv) (user_id ou)"
    by (auto simp: propose_move_def Let_def split: if_splits)
  with ou considered_task_holder[OF t] show ?thesis by blast
qed

lemma propose_moves_resolve:
  assumes "mv \<in> set (propose_moves ev d team_id ovl)" "set ovl \<subseteq> set (users d)"
  shows "(resolve_move ev d mv \<noteq> None) = (user_by_id ev d (mv_to_user_id mv) \<noteq> None)"
proof -
  from propose_moves_origin[OF assms(1)] obtain ou t where
    ou: "ou \<in> set ovl" and t: "t \<in> set (tasks d)"
    and k: "mv_task_id mv = task_id t" and f: "mv_from_user mv = username ou" by blast
  from t k have "find (\<lambda>x. task_id x = mv_task_id mv) (tasks d) \<noteq> None"
    by (auto simp: find_None_iff)
  moreover from ou assms(2) f have "find (\<lambda>u. username u = mv_from_user mv) (users d) \<noteq> None"
    by (auto simp: find_None_iff)
  ultimately show ?thesis
    by (auto simp: resolve_move_def split: option.splits)
qed

lemma resolve_move_old:
  assumes "resolve_move ev d mv = Some e" "distinct (map username (users d))"
    "ou \<in> set (users d)" "mv_from_user mv = username ou"
  shows "rm_old e = user_id ou"
proof -
  from find_distinct[OF assms(2,3)] assms(4)
  have "find (\<lambda>u. username u = mv_from_user mv) (users d) = Some ou" by simp
  with assms(1) show ?thesis by (auto simp: resolve_move_def split: option.splits)
qed

text \<open>
  A proposed move that resolves: its item is held by the source before the run and by
  the destination after it.
\<close>

lemma resolved_proposal:
  assumes tids: "distinct (map task_id (tasks d))"
    and unames: "distinct (map username (users d))"
    and sub: "set ovl \<subseteq> set (users d)"
    and dov: "distinct (map user_id ovl)"
    and recs_def: "recs = propose_moves ev d team_id ovl"
    and mv: "mv \<in> set recs" and e: "resolve_move ev d mv = Some e"
  shows "assignee_of d (mv_task_id mv) = Some (Some (rm_old e))"
    and "assignee_of (foldl (apply_move ev) d recs) (mv_task_id mv) = Some (Some (rm_new e))"
proof -
  have dr: "distinct (map mv_task_id recs)"
    unfolding recs_def by (rule distinct_task_ids_propose_moves[OF tids dov])
  have "find (\<lambda>y. mv_task_id y = mv_task_id mv \<and> resolve_move ev d y \<noteq> None) (rev recs) = Some mv"
    by (rule find_rev_unique[OF dr mv]) (simp add: e)
  then show "assignee_of (foldl (apply_move ev) d recs) (mv_task_id mv) = Some (Some (rm_new e))"
    by (simp add: assignee_of_foldl e)
  from propose_moves_origin[OF mv[unfolded recs_def]] obtain ou t where
    ou: "ou \<in> set ovl" and t: "t \<in> set (tasks d)"
    and h: "assigned_to t = Some (user_id ou)" and k: "mv_task_id mv = task_id t"
    and f: "mv_from_user mv = username ou" by blast
  from ou sub have "ou \<in> set (users d)" by blast
  from resolve_move_old[OF e unames this f] have old: "rm_old e = user_id ou" .
  from assignee_of_member[OF tids t] h k
  show "assignee_of d (mv_task_id mv) = Some (Some (rm_old e))" by (simp add: old)
qed

lemma changed_assignees:
  assumes tids: "distinct (map task_id (tasks d))"
    and unames: "distinct (map username (users d))"
    and sub: "set ovl \<subseteq> set (users d)"
    and dov: "distinct (map user_id ovl)"
    and recs_def: "recs = propose_moves ev d team_id ovl"
  shows "{tid. assignee_of (foldl (apply_move ev) d recs) tid \<noteq> assignee_of d tid}
           = mv_task_id ` set (filter (takes_effect ev d) recs)"
proof (intro set_eqI iffI)
  fix tid
  assume c: "tid \<in> {tid. assignee_of (foldl (apply_move ev) d recs) tid \<noteq> assignee_of d tid}"
  then have "find (\<lambda>mv. mv_task_id mv = tid \<and> resolve_move ev d mv \<noteq> None) (rev recs) \<noteq> None"
    by (cases "find (\<lambda>mv. mv_task_id mv = tid \<and> resolve_move ev d mv \<noteq> None) (rev recs)")
       (simp_all add: assignee_of_foldl)
  then obtain mv where
    "find (\<lambda>mv. mv_task_id mv = tid \<and> resolve_move ev d mv \<noteq> None) (rev recs) = Some mv"
    by blast
  from find_Some_mem[OF this] obtain e where mv: "mv \<in> set recs" "mv_task_id mv = tid"
    and e: "resolve_move ev d mv = Some e" by auto
  from resolved_proposal[OF tids unames sub dov recs_def mv(1) e] c mv(2)
  have "rm_new e \<noteq> rm_old e" by auto
  with e have "takes_effect ev d mv" by (simp add: takes_effect_def)
  with mv show "tid \<in> mv_task_id ` set (filter (takes_effect ev d) recs)" by auto
next
  fix tid
  assume "tid \<in> mv_task_id ` set (filter (takes_effect ev d) recs)"
  then obtain mv where mv: "mv \<in> set recs" "takes_effect ev d mv" "tid = mv_task_id mv" by auto
  from mv(2) obtain e where e: "resolve_move ev d mv = Some e" and ne: "rm_new e \<noteq> rm_old e"
    by (auto simp: takes_effect_def split: option.splits)
  from resolved_proposal[OF tids unames sub dov recs_def mv(1) e] ne mv(3)
  show "tid \<in> {tid. assignee_of (foldl (apply_move ev) d recs) tid \<noteq> assignee_of d tid}" by simp
qed

lemma changed_assignees_count:
  assumes tids: "distinct (map task_id (tasks d))"
    and unames: "distinct (map username (users d))"
    and sub: "set ovl \<subseteq> set (users d)"
    and dov: "distinct (map user_id ovl)"
    and recs_def: "recs = propose_moves ev d team_id ovl"
  shows "card {tid. assignee_of (foldl (apply_move ev) d recs) tid \<noteq> assignee_of d tid}
           = length (filter (takes_effect ev d) recs)"
proof -
  have dr: "distinct (map mv_task_id recs)"
    unfolding recs_def by (rule distinct_task_ids_propose_moves[OF tids dov])
  then have "distinct (map mv_task_id (filter (takes_effect ev d) recs))"
    by (rule distinct_map_filter)
  from distinct_card[OF this]
  have "card (mv_task_id ` set (filter (takes_effect ev d) recs))
          = length (filter (takes_effect ev d) recs)" by simp
  with changed_assignees[OF tids unames sub dov recs_def] show ?thesis by simp
qed

lemma overloaded_members:
  "set (filter is_overloaded (active_team_members d team_id)) \<subseteq> set (users d)"
  "distinct (map user_id (users d))
   \<Longrightarrow> distinct (map user_id (filter is_overloaded (active_team_members d team_id)))"
  by (auto simp: active_team_members_def intro: distinct_map_filter)

subsection \<open>The apply loop in exact arithmetic\<close>

lemma add_load_fun: "add_load c = (\<lambda>u. u\<lparr>current_workload := current_workload u + c\<rparr>)"
  by (rule ext) (simp add: add_load_def)

lemma update_user_add_zero: "update_user k (add_load 0) us = us"
  by (simp add: update_user_def add_load_def map_idI)

lemma update_user_notin: "uid \<notin> user_id ` set us \<Longrightarrow> update_user uid f us = us"
  unfolding update_user_def by (intro map_idI) auto

lemma update_user_Cons:
  "update_user uid f (u # us) = (if user_id u = uid then f u else u) # update_user uid f us"
  by (simp add: update_user_def)

lemma current_workload_add_load: "current_workload (add_load c u) = current_workload u + c"
  by (simp add: add_load_def)

lemma load_shift_apply_exact: "load_shift ev (apply_exact ev d m) mv uid = load_shift ev d mv uid"
  by (simp add: load_shift_def resolve_move_apply_exact)

lemma load_of_apply_resolved:
  "load_of (apply_resolved d e) uid
     = map_option (\<lambda>l. l + ((if uid = rm_new e then rm_hours e else 0)
                              - (if uid = rm_old e then rm_hours e else 0))) (load_of d uid)"
proof -
  have "find (\<lambda>u. user_id u = uid) (users (apply_resolved d e))
        = map_option (\<lambda>u. if user_id u = rm_new e then add_load (rm_hours e) u else u)
            (map_option (\<lambda>u. if user_id u = rm_old e then add_load (- rm_hours e) u else u)
               (find (\<lambda>u. user_id u = uid) (users d)))"
    by (simp add: apply_resolved_def find_update_user add_load_def)
  then show ?thesis
    by (cases "find (\<lambda>u. user_id u = uid) (users d)")
       (auto simp: load_of_def add_load_def dest: find_Some_mem)
qed

lemma load_of_apply_exact:
  "load_of (apply_exact ev d mv) uid = map_option (\<lambda>l. l + load_shift ev d mv uid) (load_of d uid)"
  by (cases "resolve_move ev d mv")
     (simp_all add: apply_exact_def load_shift_def load_of_apply_resolved option.map_ident)

lemma load_of_foldl:
  "load_of (foldl (apply_exact ev) d ms) uid
     = map_option (\<lambda>l. l + sum_list (map (\<lambda>mv. load_shift ev d mv uid) ms)) (load_of d uid)"
proof (induction ms arbitrary: d)
  case Nil
  show ?case by (simp add: option.map_ident)
next
  case (Cons m ms)
  show ?case
    by (simp add: Cons.IH load_of_apply_exact load_shift_apply_exact option.map_comp comp_def
        add.assoc)
qed

lemma sum_update_user:
  assumes "distinct (map user_id us)" "uid \<in> user_id ` set us"
  shows "sum_list (map current_workload (update_user uid (add_load c) us))
           = sum_list (map current_workload us) + c"
  using assms
proof (induction us)
  case Nil
  then show ?case by simp
next
  case (Cons u us)
  show ?case
  proof (cases "user_id u = uid")
    case True
    with Cons.prems(1) have "uid \<notin> user_id ` set us" by auto
    then have "update_user uid (add_load c) us = us" by (rule update_user_notin)
    with True show ?thesis by (simp add: update_user_Cons current_workload_add_load)
  next
    case False
    with Cons.prems have "distinct (map user_id us)" "uid \<in> user_id ` set us" by auto
    from Cons.IH[OF this] False show ?thesis by (simp add: update_user_Cons)
  qed
qed

lemma user_ids_update_user: "map user_id (update_user k (add_load c) us) = map user_id us"
  by (simp add: update_user_def add_load_def)

lemma resolve_move_users:
  assumes "resolve_move ev d mv = Some e"
  shows "rm_old e \<in> user_id ` set (users d)" "rm_new e \<in> user_id ` set (users d)"
  using assms
  by (auto simp: resolve_move_def user_by_id_def split: option.splits dest!: find_Some_mem)

lemma user_ids_apply_exact: "map user_id (users (apply_exact ev d mv)) = map user_id (users d)"
  by (rule user_ids_of_keys) (rule keys_apply_exact)

lemma sum_apply_exact:
  assumes "distinct (map user_id (users d))"
  shows "sum_list (map current_workload (users (apply_exact ev d mv)))
           = sum_list (map current_workload (users d))"
proof (cases "resolve_move ev d mv")
  case None
  then show ?thesis by (simp add: apply_exact_def)
next
  case (Some e)
  let ?us1 = "update_user (rm_old e) (add_load (- rm_hours e)) (users d)"
  have ids: "map user_id ?us1 = map user_id (users d)" by (rule user_ids_update_user)
  have s1: "sum_list (map current_workload ?us1)
              = sum_list (map current_workload (users d)) + - rm_hours e"
    using sum_update_user[OF assms resolve_move_users(1)[OF Some]] .
  have d1: "distinct (map user_id ?us1)" using assms by (simp only: ids)
  have m1: "rm_new e \<in> user_id ` set ?us1"
    using resolve_move_users(2)[OF Some] ids by (metis set_map)
  from sum_update_user[OF d1 m1, of "rm_hours e"] s1 Some
  show ?thesis by (simp add: apply_exact_def apply_resolved_def)
qed

lemma sum_foldl_apply_exact:
  "distinct (map user_id (users d))
   \<Longrightarrow> sum_list (map current_workload (users (foldl (apply_exact ev) d ms)))
         = sum_list (map current_workload (users d))"
proof (induction ms arbitrary: d)
  case Nil
  show ?case by simp
next
  case (Cons m ms)
  from Cons.prems have "distinct (map user_id (users (apply_exact ev d m)))"
    by (simp only: user_ids_apply_exact)
  from Cons.IH[OF this] sum_apply_exact[OF Cons.prems] show ?case by simp
qed

subsection \<open>Whole numbers within range: the loop computes exactly\<close>

lemma whole_of_int: "whole (of_int n)"
  by (simp add: whole_def)

lemma whole_add: "whole a \<Longrightarrow> whole b \<Longrightarrow> whole (a + b)"
  by (metis whole_def of_int_add whole_of_int)

lemma whole_diff: "whole a \<Longrightarrow> whole b \<Longrightarrow> whole (a - b)"
  by (metis whole_def of_int_diff whole_of_int)

lemma py_add_exact:
  "exact_upto ev B \<Longrightarrow> whole a \<Longrightarrow> whole b \<Longrightarrow> \<bar>a\<bar> \<le> B \<Longrightarrow> \<bar>b\<bar> \<le> B \<Longrightarrow> \<bar>a + b\<bar> \<le> B
   \<Longrightarrow> env_py_add ev a b = a + b"
  by (simp add: exact_upto_def)

lemma py_sub_exact:
  "exact_upto ev B \<Longrightarrow> whole a \<Longrightarrow> whole b \<Longrightarrow> \<bar>a\<bar> \<le> B \<Longrightarrow> \<bar>b\<bar> \<le> B \<Longrightarrow> \<bar>a - b\<bar> \<le> B
   \<Longrightarrow> env_py_sub ev a b = a - b"
  by (simp add: exact_upto_def)

lemma store_exact:
  "exact_upto ev B \<Longrightarrow> whole a \<Longrightarrow> \<bar>a\<bar> \<le> B \<Longrightarrow> commit_load ev s a = a"
  by (simp add: exact_upto_def commit_load_def)

lemma apply_move_unresolved: "resolve_move ev d mv = None \<Longrightarrow> apply_move ev d mv = d"
  by (auto simp: apply_move_def resolve_move_def split: option.splits)

text \<open>One user row through one turn of the loop.\<close>

lemma row_exact:
  assumes ex: "exact_upto ev B" and wa: "whole a" and wh: "whole h" and b: "\<bar>a\<bar> + \<bar>h\<bar> \<le> B"
  shows "env_py_sub ev a h = a - h" "env_py_add ev a h = a + h"
    "env_py_add ev (a - h) h = a - h + h"
proof -
  from b have ba: "\<bar>a\<bar> \<le> B" and bh: "\<bar>h\<bar> \<le> B" by linarith+
  from b have bs: "\<bar>a - h\<bar> \<le> B" and bp: "\<bar>a + h\<bar> \<le> B" by linarith+
  show "env_py_sub ev a h = a - h" by (rule py_sub_exact[OF ex wa wh ba bh bs])
  show "env_py_add ev a h = a + h" by (rule py_add_exact[OF ex wa wh ba bh bp])
  have "\<bar>a - h + h\<bar> \<le> B" using ba by simp
  from py_add_exact[OF ex whole_diff[OF wa wh] wh bs bh this]
  show "env_py_add ev (a - h) h = a - h + h" .
qed

lemma apply_move_exact_step:
  assumes ex: "exact_upto ev B"
    and rows: "\<forall>u\<in>set (users d). whole (current_workload u)
                 \<and> \<bar>current_workload u\<bar> + \<bar>moved_hours ev d mv\<bar> \<le> B"
    and wh: "whole (moved_hours ev d mv)"
  shows "apply_move ev d mv = apply_exact ev d mv"
proof (cases "resolve_move ev d mv")
  case None
  then show ?thesis by (simp add: apply_move_unresolved apply_exact_def)
next
  case (Some e)
  then obtain t ou nu where t: "find (\<lambda>t. task_id t = mv_task_id mv) (tasks d) = Some t"
    and ou: "find (\<lambda>u. username u = mv_from_user mv) (users d) = Some ou"
    and nu: "user_by_id ev d (mv_to_user_id mv) = Some nu"
    and e: "e = \<lparr>rm_task = task_id t, rm_old = user_id ou, rm_new = user_id nu,
                 rm_hours = hours_or_zero (estimated_hours t)\<rparr>"
    by (auto simp: resolve_move_def split: option.splits)
  show ?thesis
  proof (cases "truthy (estimated_hours t)")
    case False
    with t ou nu Some e show ?thesis
      by (simp add: apply_move_def apply_exact_def apply_resolved_def hours_or_zero_def Let_def
          update_user_add_zero)
  next
    case True
    define h where "h = the (estimated_hours t)"
    from True have hz: "hours_or_zero (estimated_hours t) = h" by (simp add: hours_or_zero_def h_def)
    with Some e have mh: "moved_hours ev d mv = h" by (simp add: moved_hours_def)
    have "update_user (user_id nu)
            (\<lambda>u. u\<lparr>current_workload := env_py_add ev (current_workload u) h\<rparr>)
            (update_user (user_id ou)
               (\<lambda>u. u\<lparr>current_workload := env_py_sub ev (current_workload u) h\<rparr>) (users d))
        = update_user (user_id nu) (add_load h)
            (update_user (user_id ou) (add_load (- h)) (users d))"
      unfolding update_user_def map_map
    proof (rule map_cong[OF refl])
      fix u assume "u \<in> set (users d)"
      with rows wh mh have wa: "whole (current_workload u)"
        and b: "\<bar>current_workload u\<bar> + \<bar>h\<bar> \<le> B" and whh: "whole h" by auto
      from row_exact[OF ex wa whh b]
      show "((\<lambda>u. if user_id u = user_id nu
                  then u\<lparr>current_workload := env_py_add ev (current_workload u) h\<rparr> else u) \<circ>
             (\<lambda>u. if user_id u = user_id ou
                  then u\<lparr>current_workload := env_py_sub ev (current_workload u) h\<rparr> else u)) u
          = ((\<lambda>u. if user_id u = user_id nu then add_load h u else u) \<circ>
             (\<lambda>u. if user_id u = user_id ou then add_load (- h) u else u)) u"
        by (simp add: add_load_def)
    qed
    with True t ou nu Some e hz show ?thesis
      by (simp add: apply_move_def apply_exact_def apply_resolved_def Let_def h_def)
  qed
qed

lemma rows_apply_exact:
  assumes rows: "\<forall>u\<in>set (users d). whole (current_workload u)
                 \<and> \<bar>current_workload u\<bar> + \<bar>moved_hours ev d mv\<bar> + R \<le> B"
    and wh: "whole (moved_hours ev d mv)"
  shows "\<forall>u\<in>set (users (apply_exact ev d mv)). whole (current_workload u)
           \<and> \<bar>current_workload u\<bar> + R \<le> B"
proof (cases "resolve_move ev d mv")
  case None
  with rows show ?thesis
    by (auto simp: apply_exact_def moved_hours_def)
next
  case (Some e)
  then have mh: "moved_hours ev d mv = rm_hours e" by (simp add: moved_hours_def)
  show ?thesis
  proof
    fix u' assume "u' \<in> set (users (apply_exact ev d mv))"
    with Some obtain u where u: "u \<in> set (users d)"
      and u': "u' = (if user_id (if user_id u = rm_old e then add_load (- rm_hours e) u else u) = rm_new e
                     then add_load (rm_hours e)
                            (if user_id u = rm_old e then add_load (- rm_hours e) u else u)
                     else (if user_id u = rm_old e then add_load (- rm_hours e) u else u))"
      by (auto simp: apply_exact_def apply_resolved_def update_user_def)
    from rows u mh wh have wa: "whole (current_workload u)"
      and b: "\<bar>current_workload u\<bar> + \<bar>rm_hours e\<bar> + R \<le> B" and whh: "whole (rm_hours e)"
      by auto
    have "current_workload u' = current_workload u
          \<or> current_workload u' = current_workload u - rm_hours e
          \<or> current_workload u' = current_workload u + rm_hours e"
      unfolding u' by (simp add: add_load_def)
    then show "whole (current_workload u') \<and> \<bar>current_workload u'\<bar> + R \<le> B"
    proof (elim disjE)
      assume "current_workload u' = current_workload u"
      with wa b show ?thesis by simp
    next
      assume c: "current_workload u' = current_workload u - rm_hours e"
      have "\<bar>current_workload u - rm_hours e\<bar> \<le> \<bar>current_workload u\<bar> + \<bar>rm_hours e\<bar>" by linarith
      with c b whole_diff[OF wa whh] show ?thesis by simp
    next
      assume c: "current_workload u' = current_workload u + rm_hours e"
      have "\<bar>current_workload u + rm_hours e\<bar> \<le> \<bar>current_workload u\<bar> + \<bar>rm_hours e\<bar>" by linarith
      with c b whole_add[OF wa whh] show ?thesis by simp
    qed
  qed
qed

lemma moved_hours_apply_exact: "moved_hours ev (apply_exact ev d m) mv = moved_hours ev d mv"
  by (simp add: moved_hours_def resolve_move_apply_exact)

lemma foldl_apply_move_exact:
  assumes ex: "exact_upto ev B"
  shows "(\<forall>u\<in>set (users d). whole (current_workload u)
             \<and> \<bar>current_workload u\<bar> + sum_list (map (\<lambda>mv. \<bar>moved_hours ev d mv\<bar>) ms) \<le> B)
         \<Longrightarrow> (\<forall>mv\<in>set ms. whole (moved_hours ev d mv))
         \<Longrightarrow> foldl (apply_move ev) d ms = foldl (apply_exact ev) d ms
             \<and> (\<forall>u\<in>set (users (foldl (apply_exact ev) d ms)).
                   whole (current_workload u) \<and> \<bar>current_workload u\<bar> \<le> B)"
proof (induction ms arbitrary: d)
  case Nil
  then show ?case by simp
next
  case (Cons m ms)
  let ?R = "sum_list (map (\<lambda>mv. \<bar>moved_hours ev d mv\<bar>) ms)"
  have R0: "0 \<le> ?R" by (rule sum_list_nonneg) auto
  from Cons.prems(1) have rows: "\<forall>u\<in>set (users d). whole (current_workload u)
      \<and> \<bar>current_workload u\<bar> + \<bar>moved_hours ev d m\<bar> + ?R \<le> B"
    by (simp add: add.assoc)
  from Cons.prems(2) have wm: "whole (moved_hours ev d m)" by simp
  from rows R0 have rows0: "\<forall>u\<in>set (users d). whole (current_workload u)
      \<and> \<bar>current_workload u\<bar> + \<bar>moved_hours ev d m\<bar> \<le> B" by fastforce
  have step: "apply_move ev d m = apply_exact ev d m"
    by (rule apply_move_exact_step[OF ex rows0 wm])
  from rows_apply_exact[OF rows wm]
  have r1: "\<forall>u\<in>set (users (apply_exact ev d m)). whole (current_workload u)
      \<and> \<bar>current_workload u\<bar>
          + sum_list (map (\<lambda>mv. \<bar>moved_hours ev (apply_exact ev d m) mv\<bar>) ms) \<le> B"
    by (simp add: moved_hours_apply_exact)
  from Cons.prems(2) have w1: "\<forall>mv\<in>set ms. whole (moved_hours ev (apply_exact ev d m) mv)"
    by (simp add: moved_hours_apply_exact)
  from Cons.IH[OF r1 w1] step show ?case by simp
qed

subsection \<open>The hours of the proposed moves are hours of the store\<close>

lemma moved_hours_bound:
  assumes tids: "distinct (map task_id (tasks d))"
    and dr: "distinct (map mv_task_id recs)"
  shows "sum_list (map (\<lambda>mv. \<bar>moved_hours ev d mv\<bar>) recs) \<le> total_abs_hours d"
proof -
  define G where "G k = (case find (\<lambda>t. task_id t = k) (tasks d) of
                           None \<Rightarrow> 0 | Some t \<Rightarrow> \<bar>hours_or_zero (estimated_hours t)\<bar>)" for k
  have G0: "0 \<le> G k" for k by (simp add: G_def split: option.splits)
  have m: "\<bar>moved_hours ev d mv\<bar> \<le> G (mv_task_id mv)" for mv
  proof (cases "resolve_move ev d mv")
    case None
    then show ?thesis using G0 by (simp add: moved_hours_def)
  next
    case (Some e)
    from resolve_move_task_exists[OF Some] Some show ?thesis
      by (auto simp: moved_hours_def G_def)
  qed
  have "sum_list (map (\<lambda>mv. \<bar>moved_hours ev d mv\<bar>) recs)
          \<le> sum_list (map (\<lambda>mv. G (mv_task_id mv)) recs)"
    by (rule sum_list_mono) (rule m)
  also have "\<dots> = sum_list (map G (map mv_task_id recs))" by (simp add: comp_def)
  also have "\<dots> = sum G (set (map mv_task_id recs))"
    by (rule sum_list_distinct_conv_sum_set[OF dr])
  also have "\<dots> \<le> sum G (set (map task_id (tasks d)))"
  proof -
    have out: "G k = 0" if "k \<notin> set (map task_id (tasks d))" for k
    proof -
      from that have "find (\<lambda>t. task_id t = k) (tasks d) = None"
        by (auto simp: find_None_iff)
      then show ?thesis by (simp add: G_def)
    qed
    have "sum G (set (map mv_task_id recs))
            = sum G (set (map mv_task_id recs) \<inter> set (map task_id (tasks d)))"
      by (rule sum.mono_neutral_right) (auto simp: out)
    also have "\<dots> \<le> sum G (set (map task_id (tasks d)))"
      by (rule sum_mono2) (auto simp: G0)
    finally show ?thesis .
  qed
  also have "\<dots> = sum_list (map G (map task_id (tasks d)))"
    by (rule sum_list_distinct_conv_sum_set[OF tids, symmetric])
  also have "\<dots> = total_abs_hours d"
  proof -
    have "map (\<lambda>t. G (task_id t)) (tasks d)
            = map (\<lambda>t. \<bar>hours_or_zero (estimated_hours t)\<bar>) (tasks d)"
    proof (rule map_cong[OF refl])
      fix t assume "t \<in> set (tasks d)"
      from find_distinct[OF tids this] show "G (task_id t) = \<bar>hours_or_zero (estimated_hours t)\<bar>"
        by (simp add: G_def)
    qed
    then have "sum_list (map (\<lambda>t. G (task_id t)) (tasks d))
            = sum_list (map (\<lambda>t. \<bar>hours_or_zero (estimated_hours t)\<bar>) (tasks d))"
      by (rule arg_cong)
    then show ?thesis by (simp add: total_abs_hours_def comp_def)
  qed
  finally show ?thesis .
qed

lemma moved_hours_whole:
  assumes "whole_hours d"
  shows "whole (moved_hours ev d mv)"
proof (cases "resolve_move ev d mv")
  case None
  then show ?thesis by (simp add: moved_hours_def whole_def)
next
  case (Some e)
  from resolve_move_task_exists[OF Some] obtain t where
    t: "find (\<lambda>t. task_id t = mv_task_id mv) (tasks d) = Some t"
    and h: "rm_hours e = hours_or_zero (estimated_hours t)" by blast
  from find_Some_mem[OF t] have "t \<in> set (tasks d)" by simp
  with assms have "whole (hours_or_zero (estimated_hours t))"
    by (simp add: whole_hours_def list_all_iff)
  with Some h show ?thesis by (simp add: moved_hours_def)
qed

subsection \<open>The commit\<close>

lemma commit_users_same:
  assumes "length stored = length session"
    and "\<forall>u\<in>set session. \<forall>s. commit_load ev s (current_workload u) = current_workload u"
  shows "commit_users ev stored session = session"
  using assms
  by (induction stored session rule: list_induct2) (simp_all add: commit_users_def)

text \<open>
  With whole numbers within range, an apply run is the loop in exact arithmetic.
\<close>

lemma apply_moves_exact:
  assumes ex: "exact_upto ev B" and wh: "whole_hours d" and lw: "loads_within B d"
    and tids: "distinct (map task_id (tasks d))"
    and dr: "distinct (map mv_task_id recs)"
  shows "apply_moves ev d recs = foldl (apply_exact ev) d recs"
proof -
  from moved_hours_bound[OF tids dr]
  have hb: "sum_list (map (\<lambda>mv. \<bar>moved_hours ev d mv\<bar>) recs) \<le> total_abs_hours d" .
  have rows: "\<forall>u\<in>set (users d). whole (current_workload u)
             \<and> \<bar>current_workload u\<bar> + sum_list (map (\<lambda>mv. \<bar>moved_hours ev d mv\<bar>) recs) \<le> B"
  proof
    fix u assume u: "u \<in> set (users d)"
    with wh have "whole (current_workload u)" by (simp add: whole_hours_def list_all_iff)
    moreover from lw u have "\<bar>current_workload u\<bar> + total_abs_hours d \<le> B"
      by (simp add: loads_within_def list_all_iff)
    ultimately show "whole (current_workload u)
             \<and> \<bar>current_workload u\<bar> + sum_list (map (\<lambda>mv. \<bar>moved_hours ev d mv\<bar>) recs) \<le> B"
      using hb by linarith
  qed
  have whs: "\<forall>mv\<in>set recs. whole (moved_hours ev d mv)"
    using moved_hours_whole[OF wh] by blast
  from foldl_apply_move_exact[OF ex rows whs]
  have eq: "foldl (apply_move ev) d recs = foldl (apply_exact ev) d recs"
    and fin: "\<forall>u\<in>set (users (foldl (apply_exact ev) d recs)).
                whole (current_workload u) \<and> \<bar>current_workload u\<bar> \<le> B" by simp_all
  have len: "length (users d) = length (users (foldl (apply_exact ev) d recs))"
    using keys_foldl_apply_move(2)[of ev d recs] eq
    by (metis length_map)
  have "commit_users ev (users d) (users (foldl (apply_exact ev) d recs))
          = users (foldl (apply_exact ev) d recs)"
    by (rule commit_users_same[OF len]) (use fin store_exact[OF ex] in blast)
  then show ?thesis
    by (simp add: apply_moves_def Let_def eq)
qed

subsection \<open>An apply run\<close>

lemma commit_users_refl: "commit_users ev us us = us"
  by (induction us) (simp_all add: commit_users_def commit_load_def)

lemma apply_moves_Nil: "apply_moves ev d [] = d"
  by (simp add: apply_moves_def commit_users_refl)

lemma rebalance_apply_run:
  "rebalance_team_workload ev d team_id False
     = (if active_team_members d team_id = [] then (Inl msg_team_not_found, d)
        else (Inr \<lparr>overloaded_count = length (filter is_overloaded (active_team_members d team_id)),
                   underloaded_count =
                     length (filter (\<lambda>u. workload_percentage u < 70) (active_team_members d team_id)),
                   recommendations =
                     propose_moves ev d team_id (filter is_overloaded (active_team_members d team_id)),
                   applied = True\<rparr>,
              apply_moves ev d
                (propose_moves ev d team_id (filter is_overloaded (active_team_members d team_id)))))"
  by (simp add: rebalance_team_workload_def Let_def apply_moves_Nil)

text \<open>The example platform computes and stores exactly.\<close>

lemma sample_env_exact: "exact_upto sample_env B"
  by (simp add: exact_upto_def sample_env_def)

text \<open>
  Claim C6, as the code has it. In a store with unique user ids, user names and task
  ids, an apply run changes the assignee of exactly those items whose proposed move takes
  effect, that is whose destination the store resolves to a person other than the holder,
  one item per such move: at most the number of proposed moves. Each such item goes from
  its holder to that person. When loads and estimates are whole numbers within the range
  in which the platform computes and stores exactly, every person's load changes by the
  hours of the resolved moves towards the person minus the hours of the resolved moves
  away, and the sum of all loads is unchanged.
\<close>

theorem rebalance_apply_effect:
  assumes uids: "distinct (map user_id (users d))"
    and unames: "distinct (map username (users d))"
    and tids: "distinct (map task_id (tasks d))"
  shows "case rebalance_team_workload ev d team_id False of
           (Inl err, d') \<Rightarrow> d' = d
         | (Inr report, d') \<Rightarrow>
             card {tid. assignee_of d' tid \<noteq> assignee_of d tid}
               = length (filter (takes_effect ev d) (recommendations report))
             \<and> length (filter (takes_effect ev d) (recommendations report))
                 \<le> length (recommendations report)
             \<and> (\<forall>mv\<in>set (recommendations report). takes_effect ev d mv \<longrightarrow>
                  (\<exists>e. resolve_move ev d mv = Some e
                     \<and> assignee_of d (mv_task_id mv) = Some (Some (rm_old e))
                     \<and> assignee_of d' (mv_task_id mv) = Some (Some (rm_new e))
                     \<and> rm_new e \<noteq> rm_old e))
             \<and> (exact_upto ev B \<and> whole_hours d \<and> loads_within B d \<longrightarrow>
                  (\<forall>uid. load_of d' uid
                     = map_option
                         (\<lambda>l. l + sum_list (map (\<lambda>mv. load_shift ev d mv uid)
                                            (recommendations report)))
                         (load_of d uid))
                  \<and> sum_list (map current_workload (users d'))
                      = sum_list (map current_workload (users d)))"
proof (cases "active_team_members d team_id = []")
  case True
  then show ?thesis by (simp add: rebalance_apply_run)
next
  case False
  define ovl where "ovl = filter is_overloaded (active_team_members d team_id)"
  define recs where "recs = propose_moves ev d team_id ovl"
  have sub: "set ovl \<subseteq> set (users d)"
    unfolding ovl_def by (rule overloaded_members(1))
  have dov: "distinct (map user_id ovl)"
    unfolding ovl_def by (rule overloaded_members(2)[OF uids])
  have dr: "distinct (map mv_task_id recs)"
    unfolding recs_def by (rule distinct_task_ids_propose_moves[OF tids dov])
  have a: "card {tid. assignee_of (apply_moves ev d recs) tid \<noteq> assignee_of d tid}
               = length (filter (takes_effect ev d) recs)"
    using changed_assignees_count[OF tids unames sub dov recs_def]
    by (simp add: assignee_of_apply_moves)
  have a': "length (filter (takes_effect ev d) recs) \<le> length recs" by simp
  have b: "\<forall>mv\<in>set recs. takes_effect ev d mv \<longrightarrow>
                  (\<exists>e. resolve_move ev d mv = Some e
                     \<and> assignee_of d (mv_task_id mv) = Some (Some (rm_old e))
                     \<and> assignee_of (apply_moves ev d recs) (mv_task_id mv) = Some (Some (rm_new e))
                     \<and> rm_new e \<noteq> rm_old e)"
  proof (intro ballI impI)
    fix mv assume mv: "mv \<in> set recs" and te: "takes_effect ev d mv"
    from te obtain e where e: "resolve_move ev d mv = Some e" and ne: "rm_new e \<noteq> rm_old e"
      by (auto simp: takes_effect_def split: option.splits)
    from resolved_proposal[OF tids unames sub dov recs_def mv e] e ne
    show "\<exists>e. resolve_move ev d mv = Some e
             \<and> assignee_of d (mv_task_id mv) = Some (Some (rm_old e))
             \<and> assignee_of (apply_moves ev d recs) (mv_task_id mv) = Some (Some (rm_new e))
             \<and> rm_new e \<noteq> rm_old e"
      by (simp add: assignee_of_apply_moves)
  qed
  have c: "exact_upto ev B \<and> whole_hours d \<and> loads_within B d \<longrightarrow>
             (\<forall>uid. load_of (apply_moves ev d recs) uid
                    = map_option (\<lambda>l. l + sum_list (map (\<lambda>mv. load_shift ev d mv uid) recs))
                        (load_of d uid))
             \<and> sum_list (map current_workload (users (apply_moves ev d recs)))
                 = sum_list (map current_workload (users d))"
  proof (intro impI)
    assume h: "exact_upto ev B \<and> whole_hours d \<and> loads_within B d"
    then have ex: "exact_upto ev B" and wh: "whole_hours d" and lw: "loads_within B d"
      by simp_all
    have eq: "apply_moves ev d recs = foldl (apply_exact ev) d recs"
      by (rule apply_moves_exact[OF ex wh lw tids dr])
    show "(\<forall>uid. load_of (apply_moves ev d recs) uid
                    = map_option (\<lambda>l. l + sum_list (map (\<lambda>mv. load_shift ev d mv uid) recs))
                        (load_of d uid))
             \<and> sum_list (map current_workload (users (apply_moves ev d recs)))
                 = sum_list (map current_workload (users d))"
      unfolding eq by (simp add: load_of_foldl sum_foldl_apply_exact[OF uids])
  qed
  from False a a' b c show ?thesis
    by (simp add: rebalance_apply_run recs_def ovl_def)
qed

theorem rebalance_apply_effect_witness:
  "distinct (map user_id (users sample_db)) \<and> distinct (map username (users sample_db))
   \<and> distinct (map task_id (tasks sample_db))
   \<and> exact_upto sample_env 2147483647 \<and> whole_hours sample_db
   \<and> loads_within 2147483647 sample_db
   \<and> (\<exists>report d'. rebalance_team_workload sample_env sample_db 1 False = (Inr report, d')
         \<and> length (recommendations report) = 1
         \<and> card {tid. assignee_of d' tid \<noteq> assignee_of sample_db tid} = 1
         \<and> load_of d' 2 = Some 34 \<and> load_of d' 3 = Some 14
         \<and> sum_list (map current_workload (users d')) = 58
         \<and> sum_list (map current_workload (users sample_db)) = 58)"
proof -
  have u: "distinct (map user_id (users sample_db))" by code_simp
  have n: "distinct (map username (users sample_db))" by code_simp
  have t: "distinct (map task_id (tasks sample_db))" by code_simp
  have x: "exact_upto sample_env 2147483647" by (rule sample_env_exact)
  have w: "whole_hours sample_db" by code_simp
  have l: "loads_within 2147483647 sample_db" by code_simp
  have v: "case rebalance_team_workload sample_env sample_db 1 False of
      (Inr report, d') \<Rightarrow>
        length (recommendations report) = 1
        \<and> length (filter (takes_effect sample_env sample_db) (recommendations report)) = 1
        \<and> load_of d' 2 = Some 34 \<and> load_of d' 3 = Some 14
        \<and> sum_list (map current_workload (users sample_db)) = 58
    | (Inl err, d') \<Rightarrow> False"
    by code_simp
  obtain r d' where run: "rebalance_team_workload sample_env sample_db 1 False = (r, d')"
    by (cases "rebalance_team_workload sample_env sample_db 1 False")
  from v run obtain report where r: "r = Inr report" by (cases r) simp_all
  from v run r have v': "length (recommendations report) = 1"
    "length (filter (takes_effect sample_env sample_db) (recommendations report)) = 1"
    "load_of d' 2 = Some 34" "load_of d' 3 = Some 14"
    "sum_list (map current_workload (users sample_db)) = 58" by simp_all
  from rebalance_apply_effect[OF u n t, where ev = sample_env and team_id = 1 and B = 2147483647] run r x w l
  have "card {tid. assignee_of d' tid \<noteq> assignee_of sample_db tid}
          = length (filter (takes_effect sample_env sample_db) (recommendations report))"
    and "sum_list (map current_workload (users d'))
          = sum_list (map current_workload (users sample_db))" by simp_all
  with v' u n t x w l run r show ?thesis by simp
qed

text \<open>
  Claim C6 as stated fails: when the oracle recommends a person who does not exist, the
  run reports one proposed move as applied and changes no assignee and no load.
\<close>

theorem phantom_destination_not_reassigned:
  "(case rebalance_team_workload phantom_env sample_db 1 False of
      (Inr report, d') \<Rightarrow>
        length (recommendations report) = 1 \<and> applied report
        \<and> tasks d' = tasks sample_db \<and> users d' = users sample_db
    | (Inl err, d') \<Rightarrow> False)"
  by code_simp

text \<open>
  The destination is looked up by the store: a reply that gives the id as the text
  \<^verbatim>\<open>"3"\<close> moves the item to person 3, with its four hours.
\<close>

lemma text_destination_is_resolved:
  "(case rebalance_team_workload text_id_env sample_db 1 False of
      (Inr report, d') \<Rightarrow>
        map mv_to_user_id (recommendations report) = [JStr ''3'']
        \<and> map (takes_effect text_id_env sample_db) (recommendations report) = [True]
        \<and> map assigned_to (tasks d') = [Some 3]
        \<and> map current_workload (users d') = [0, 34, 14, 10]
    | (Inl err, d') \<Rightarrow> False)"
  by code_simp

text \<open>
  A reply that gives the holder's own id as the text \<^verbatim>\<open>"2"\<close> differs from the id 2
  in Python, so the move is listed; the store resolves it to the holder, and the run
  changes nothing.
\<close>

lemma holder_as_text_changes_nothing:
  "(case rebalance_team_workload holder_id_env sample_db 1 False of
      (Inr report, d') \<Rightarrow>
        map mv_to_user_id (recommendations report) = [JStr ''2'']
        \<and> map (takes_effect holder_id_env sample_db) (recommendations report) = [False]
        \<and> applied report
        \<and> tasks d' = tasks sample_db \<and> users d' = users sample_db
    | (Inl err, d') \<Rightarrow> False)"
  by code_simp

subsection \<open>Loads stay non-negative on deletion, not on rebalancing\<close>

text \<open>
  Claim C8 fails on the apply run: from a store with no negative load, the source
  person's load is left at \<open>-10\<close>. Deleting an item clamps the load at zero; the
  apply run subtracts without a clamp.
\<close>

theorem rebalance_apply_negative_load:
  "list_all (\<lambda>u. 0 \<le> current_workload u) (users overdrawn_db)
   \<and> map current_workload (users (snd (rebalance_team_workload sample_env overdrawn_db 1 False)))
       = [0, - 10, 20]"
  by code_simp

text \<open>
  Deletion keeps loads non-negative wherever the store keeps a non-negative number
  non-negative.
\<close>

lemma delete_task_keeps_loads_nonnegative:
  assumes "\<forall>u\<in>set (users d). 0 \<le> current_workload u"
    and "\<forall>x. 0 \<le> x \<longrightarrow> 0 \<le> env_store_integer ev x"
    and "delete_task ev d tid = Inr d2"
  shows "\<forall>u\<in>set (users d2). 0 \<le> current_workload u"
  using assms
  by (auto simp: delete_task_def Let_def update_user_def commit_load_def
      split: option.splits if_splits)

subsection \<open>Assigning and deleting a work item\<close>

lemma user_by_id_first:
  assumes "user_by_id ev d v = Some u"
  shows "find (\<lambda>x. user_id x = user_id u) (users d) = Some u"
proof -
  from assms obtain n where n: "find (\<lambda>x. user_id x = n) (users d) = Some u"
    by (auto simp: user_by_id_def split: option.splits)
  from find_Some_mem[OF n] have "user_id u = n" by simp
  with n show ?thesis by simp
qed

lemma auto_distribute_applied:
  assumes "find (\<lambda>t. task_id t = tid) (tasks d) = Some t"
    and "\<not> has_key ''error'' (recommend_assignee ev d tid None)"
    and "has_key ''recommended_user_id'' (recommend_assignee ev d tid None)"
    and "user_by_id ev d (dict_get (recommend_assignee ev d tid None) ''recommended_user_id'')
           = Some u"
  shows "snd (auto_distribute_task ev d tid True)
           = d\<lparr>tasks := update_task_row tid (assign_row (user_id u) (recommend_assignee ev d tid None))
                          (tasks d),
               users := add_workload ev (user_id u) (estimated_hours t) (users d)\<rparr>"
  using assms
  by (simp add: auto_distribute_task_def Let_def assign_row_def[abs_def])

lemma find_task_after_assign:
  assumes "find (\<lambda>t. task_id t = tid) (tasks d) = Some t"
  shows "find (\<lambda>t. task_id t = tid) (update_task_row tid (assign_row a r) (tasks d))
           = Some (assign_row a r t)"
proof -
  from find_Some_mem[OF assms] have "task_id t = tid" by simp
  with assms show ?thesis
    by (simp add: find_update_task_row assign_row_def)
qed

text \<open>
  The load of the assignee after a recommendation is applied, on any platform: what the
  column keeps of Python's sum of the load and the estimate.
\<close>

lemma load_after_assign:
  assumes t: "find (\<lambda>t. task_id t = tid) (tasks d) = Some t"
    and e: "\<not> has_key ''error'' (recommend_assignee ev d tid None)"
    and k: "has_key ''recommended_user_id'' (recommend_assignee ev d tid None)"
    and u: "user_by_id ev d (dict_get (recommend_assignee ev d tid None) ''recommended_user_id'')
              = Some u"
  shows "load_of (snd (auto_distribute_task ev d tid True)) (user_id u)
           = Some (if truthy (estimated_hours t)
                   then commit_load ev (current_workload u)
                          (env_py_add ev (current_workload u) (the (estimated_hours t)))
                   else current_workload u)"
proof -
  from user_by_id_first[OF u]
  have f: "find (\<lambda>x. user_id x = user_id u) (users d) = Some u" .
  show ?thesis
    unfolding auto_distribute_applied[OF t e k u]
    by (simp add: load_of_def add_workload_def find_update_user f)
qed

text \<open>
  The load of the holder after an item is deleted, on any platform: what the column keeps
  of the larger of zero and Python's difference of the load and the estimate.
\<close>

lemma delete_task_load:
  assumes "find (\<lambda>t. task_id t = tid) (tasks d) = Some t" "assigned_to t = Some a" "a \<noteq> 0"
  shows "\<exists>d2. delete_task ev d tid = Inr d2
     \<and> assignee_of d2 tid = None
     \<and> load_of d2 a
         = map_option (\<lambda>l. if truthy (estimated_hours t)
                             then commit_load ev l (max 0 (env_py_sub ev l (the (estimated_hours t))))
                             else l) (load_of d a)"
proof -
  define us where "us =
     (if truthy (assigned_to t) \<and> truthy (estimated_hours t) then
        (case find (\<lambda>u. user_id u = the (assigned_to t)) (users d) of
           None \<Rightarrow> users d
         | Some assigned_user \<Rightarrow>
             update_user (user_id assigned_user)
               (\<lambda>u. u\<lparr>current_workload :=
                        commit_load ev (current_workload u)
                          (max 0 (env_py_sub ev (current_workload u) (the (estimated_hours t))))\<rparr>)
               (users d))
      else users d)"
  define d2 where "d2 = d\<lparr>users := us, tasks := filter (\<lambda>x. task_id x \<noteq> tid) (tasks d)\<rparr>"
  have r: "delete_task ev d tid = Inr d2"
    using assms(1) by (simp add: delete_task_def d2_def us_def Let_def)
  have gone: "assignee_of d2 tid = None"
    by (simp add: assignee_of_def d2_def find_None_iff)
  have ta: "truthy (assigned_to t)" using assms(2,3) by (simp add: truthy_def)
  have loads: "find (\<lambda>u. user_id u = a) us
      = map_option (\<lambda>u. if truthy (estimated_hours t)
                          then u\<lparr>current_workload :=
                                   commit_load ev (current_workload u)
                                     (max 0 (env_py_sub ev (current_workload u)
                                               (the (estimated_hours t))))\<rparr>
                          else u)
          (find (\<lambda>u. user_id u = a) (users d))"
  proof (cases "truthy (estimated_hours t)")
    case False
    then show ?thesis by (simp add: us_def option.map_ident)
  next
    case True
    show ?thesis
    proof (cases "find (\<lambda>u. user_id u = a) (users d)")
      case None
      then have "us = users d" using True ta assms(2) by (simp add: us_def)
      with None show ?thesis by simp
    next
      case (Some au)
      from find_Some_mem[OF Some] have au: "user_id au = a" by simp
      with Some True ta assms(2) have "us = update_user a
               (\<lambda>u. u\<lparr>current_workload :=
                        commit_load ev (current_workload u)
                          (max 0 (env_py_sub ev (current_workload u) (the (estimated_hours t))))\<rparr>)
               (users d)" by (simp add: us_def)
      then show ?thesis using True Some au by (simp add: find_update_user)
    qed
  qed
  have la: "load_of d2 a
         = map_option (\<lambda>l. if truthy (estimated_hours t)
                             then commit_load ev l (max 0 (env_py_sub ev l (the (estimated_hours t))))
                             else l) (load_of d a)"
    by (cases "find (\<lambda>u. user_id u = a) (users d)")
       (auto simp: load_of_def d2_def loads)
  from r gone la show ?thesis by blast
qed

text \<open>With whole numbers within range the two are the exact sum and difference.\<close>

lemma whole_max0: "whole x \<Longrightarrow> whole (max 0 x)"
  by (simp add: max_def whole_def)

lemma assign_exact:
  assumes ex: "exact_upto ev B" and wl: "whole l" and wh: "whole (hours_or_zero h)"
    and b: "\<bar>l\<bar> + \<bar>hours_or_zero h\<bar> \<le> B"
  shows "(if truthy h then commit_load ev l (env_py_add ev l (the h)) else l)
           = l + hours_or_zero h"
proof (cases "truthy h")
  case False
  then show ?thesis by (simp add: hours_or_zero_def)
next
  case True
  then have hz: "hours_or_zero h = the h" by (simp add: hours_or_zero_def)
  from row_exact(2)[OF ex wl wh b] have a: "env_py_add ev l (the h) = l + the h" by (simp add: hz)
  have "\<bar>l + the h\<bar> \<le> B" using b hz by linarith
  from store_exact[OF ex whole_add[OF wl wh] this[folded hz]] a True hz
  show ?thesis by simp
qed

lemma delete_exact:
  assumes ex: "exact_upto ev B" and wl: "whole l" and wh: "whole (hours_or_zero h)"
    and b: "\<bar>l\<bar> + \<bar>hours_or_zero h\<bar> \<le> B"
  shows "(if truthy h then commit_load ev l (max 0 (env_py_sub ev l (the h))) else l)
           = (if truthy h then max 0 (l - the h) else l)"
proof (cases "truthy h")
  case False
  then show ?thesis by simp
next
  case True
  then have hz: "hours_or_zero h = the h" by (simp add: hours_or_zero_def)
  from row_exact(1)[OF ex wl wh b] have a: "env_py_sub ev l (the h) = l - the h" by (simp add: hz)
  have "\<bar>max 0 (l - the h)\<bar> \<le> B" using b hz by (simp add: max_def) linarith
  from store_exact[OF ex whole_max0[OF whole_diff[OF wl wh]] this[folded hz]] a True hz
  show ?thesis by simp
qed

lemma assign_effect:
  assumes t: "find (\<lambda>t. task_id t = tid) (tasks d) = Some t"
    and e: "\<not> has_key ''error'' (recommend_assignee ev d tid None)"
    and k: "has_key ''recommended_user_id'' (recommend_assignee ev d tid None)"
    and u: "user_by_id ev d (dict_get (recommend_assignee ev d tid None) ''recommended_user_id'')
              = Some u"
    and ex: "exact_upto ev B" and wl: "whole (current_workload u)"
    and wh: "whole (hours_or_zero (estimated_hours t))"
    and b: "\<bar>current_workload u\<bar> + \<bar>hours_or_zero (estimated_hours t)\<bar> \<le> B"
  shows "assignee_of (snd (auto_distribute_task ev d tid True)) tid = Some (Some (user_id u))"
    and "load_of d (user_id u) = Some (current_workload u)"
    and "load_of (snd (auto_distribute_task ev d tid True)) (user_id u)
            = Some (current_workload u + hours_or_zero (estimated_hours t))"
    and "user_id u \<noteq> 0 \<and> 0 \<le> current_workload u \<longrightarrow>
              (\<exists>d2. delete_task ev (snd (auto_distribute_task ev d tid True)) tid = Inr d2
                 \<and> load_of d2 (user_id u) = Some (current_workload u))"
proof -
  let ?r = "recommend_assignee ev d tid None"
  let ?d1 = "snd (auto_distribute_task ev d tid True)"
  let ?h = "hours_or_zero (estimated_hours t)"
  have d1: "?d1 = d\<lparr>tasks := update_task_row tid (assign_row (user_id u) ?r) (tasks d),
               users := add_workload ev (user_id u) (estimated_hours t) (users d)\<rparr>"
    by (rule auto_distribute_applied[OF t e k u])
  have ft: "find (\<lambda>t. task_id t = tid) (tasks ?d1) = Some (assign_row (user_id u) ?r t)"
    unfolding d1 using find_task_after_assign[OF t] by simp
  then show a1: "assignee_of ?d1 tid = Some (Some (user_id u))"
    by (simp add: assignee_of_def assign_row_def)
  from user_by_id_first[OF u]
  show l0: "load_of d (user_id u) = Some (current_workload u)" by (simp add: load_of_def)
  from load_after_assign[OF t e k u] assign_exact[OF ex wl wh b]
  show l1: "load_of ?d1 (user_id u) = Some (current_workload u + ?h)" by simp
  show "user_id u \<noteq> 0 \<and> 0 \<le> current_workload u \<longrightarrow>
              (\<exists>d2. delete_task ev ?d1 tid = Inr d2 \<and> load_of d2 (user_id u) = Some (current_workload u))"
  proof
    assume h: "user_id u \<noteq> 0 \<and> 0 \<le> current_workload u"
    have as: "assigned_to (assign_row (user_id u) ?r t) = Some (user_id u)"
      by (simp add: assign_row_def)
    have es: "estimated_hours (assign_row (user_id u) ?r t) = estimated_hours t"
      by (simp add: assign_row_def)
    from delete_task_load[OF ft as, of ev] h obtain d2 where
      r: "delete_task ev ?d1 tid = Inr d2"
      and l2: "load_of d2 (user_id u)
         = map_option (\<lambda>l. if truthy (estimated_hours t)
                             then commit_load ev l (max 0 (env_py_sub ev l (the (estimated_hours t))))
                             else l)
             (load_of ?d1 (user_id u))"
      unfolding es by blast
    have "(if truthy (estimated_hours t)
           then commit_load ev (current_workload u + ?h)
                  (max 0 (env_py_sub ev (current_workload u + ?h) (the (estimated_hours t))))
           else current_workload u + ?h) = current_workload u"
    proof (cases "truthy (estimated_hours t)")
      case False
      then show ?thesis by (simp add: hours_or_zero_def)
    next
      case True
      then have hz: "?h = the (estimated_hours t)" by (simp add: hours_or_zero_def)
      have bl: "\<bar>current_workload u + ?h\<bar> \<le> B" and bh: "\<bar>?h\<bar> \<le> B"
        and bc: "\<bar>current_workload u\<bar> \<le> B" using b by linarith+
      have "env_py_sub ev (current_workload u + ?h) ?h = current_workload u + ?h - ?h"
        by (rule py_sub_exact[OF ex whole_add[OF wl wh] wh bl bh]) (simp add: bc)
      then have s: "env_py_sub ev (current_workload u + ?h) (the (estimated_hours t))
                      = current_workload u" by (simp add: hz)
      from h have m: "max 0 (current_workload u) = current_workload u" by simp
      from store_exact[OF ex wl bc] True s m show ?thesis by simp
    qed
    with l2 l1 have "load_of d2 (user_id u) = Some (current_workload u)" by simp
    with r show "\<exists>d2. delete_task ev ?d1 tid = Inr d2 \<and> load_of d2 (user_id u) = Some (current_workload u)"
      by blast
  qed
qed

lemma delete_effect:
  assumes f: "find (\<lambda>t. task_id t = tid) (tasks d) = Some t" and a: "assigned_to t = Some a"
    and a0: "a \<noteq> 0" and l: "load_of d a = Some l"
    and ex: "exact_upto ev B" and wl: "whole l" and wh: "whole (hours_or_zero (estimated_hours t))"
    and b: "\<bar>l\<bar> + \<bar>hours_or_zero (estimated_hours t)\<bar> \<le> B"
  shows "\<exists>d2. delete_task ev d tid = Inr d2
          \<and> assignee_of d2 tid = None
          \<and> load_of d2 a
              = Some (if truthy (estimated_hours t) then max 0 (l - the (estimated_hours t)) else l)
          \<and> (hours_or_zero (estimated_hours t) \<le> l
                \<longrightarrow> load_of d2 a = Some (l - hours_or_zero (estimated_hours t)))"
proof -
  from delete_task_load[OF f a a0, of ev] obtain d2 where
    r: "delete_task ev d tid = Inr d2" and g: "assignee_of d2 tid = None"
    and l2: "load_of d2 a
         = map_option (\<lambda>l. if truthy (estimated_hours t)
                             then commit_load ev l (max 0 (env_py_sub ev l (the (estimated_hours t))))
                             else l) (load_of d a)" by blast
  from l2 l delete_exact[OF ex wl wh b]
  have v: "load_of d2 a
             = Some (if truthy (estimated_hours t) then max 0 (l - the (estimated_hours t)) else l)"
    by simp
  have "hours_or_zero (estimated_hours t) \<le> l
          \<longrightarrow> load_of d2 a = Some (l - hours_or_zero (estimated_hours t))"
    by (auto simp: v hours_or_zero_def)
  with r g v show ?thesis by blast
qed

text \<open>
  Claim C7, as the code has it, for whole numbers of hours within the range in which the
  platform computes and stores exactly. Applying a recommendation that the store resolves
  to an existing person assigns the item to the person and raises the person's load by
  exactly the item's estimated hours (by nothing for an absent or zero estimate); deleting
  the item then restores the person's load, provided it was not negative. Deleting an item
  held by a person lowers the person's load by the item's hours but not below zero, which
  is a decrease of exactly the hours whenever the load covers them.
\<close>

theorem assign_then_delete_loads:
  "(find (\<lambda>t. task_id t = tid) (tasks d) = Some t
      \<and> \<not> has_key ''error'' (recommend_assignee ev d tid None)
      \<and> has_key ''recommended_user_id'' (recommend_assignee ev d tid None)
      \<and> user_by_id ev d (dict_get (recommend_assignee ev d tid None) ''recommended_user_id'')
          = Some u
      \<and> exact_upto ev B \<and> whole (current_workload u)
      \<and> whole (hours_or_zero (estimated_hours t))
      \<and> \<bar>current_workload u\<bar> + \<bar>hours_or_zero (estimated_hours t)\<bar> \<le> B
    \<longrightarrow> assignee_of (snd (auto_distribute_task ev d tid True)) tid = Some (Some (user_id u))
        \<and> load_of d (user_id u) = Some (current_workload u)
        \<and> load_of (snd (auto_distribute_task ev d tid True)) (user_id u)
            = Some (current_workload u + hours_or_zero (estimated_hours t))
        \<and> (user_id u \<noteq> 0 \<and> 0 \<le> current_workload u \<longrightarrow>
              (\<exists>d2. delete_task ev (snd (auto_distribute_task ev d tid True)) tid = Inr d2
                 \<and> load_of d2 (user_id u) = Some (current_workload u))))
   \<and> (find (\<lambda>t. task_id t = tid') (tasks d0) = Some t0 \<and> assigned_to t0 = Some a \<and> a \<noteq> 0
      \<and> load_of d0 a = Some l
      \<and> exact_upto ev B \<and> whole l \<and> whole (hours_or_zero (estimated_hours t0))
      \<and> \<bar>l\<bar> + \<bar>hours_or_zero (estimated_hours t0)\<bar> \<le> B
    \<longrightarrow> (\<exists>d2. delete_task ev d0 tid' = Inr d2
          \<and> assignee_of d2 tid' = None
          \<and> load_of d2 a
              = Some (if truthy (estimated_hours t0) then max 0 (l - the (estimated_hours t0))
                      else l)
          \<and> (hours_or_zero (estimated_hours t0) \<le> l
                \<longrightarrow> load_of d2 a = Some (l - hours_or_zero (estimated_hours t0)))))"
proof (intro conjI impI)
  assume h: "find (\<lambda>t. task_id t = tid) (tasks d) = Some t
      \<and> \<not> has_key ''error'' (recommend_assignee ev d tid None)
      \<and> has_key ''recommended_user_id'' (recommend_assignee ev d tid None)
      \<and> user_by_id ev d (dict_get (recommend_assignee ev d tid None) ''recommended_user_id'')
          = Some u
      \<and> exact_upto ev B \<and> whole (current_workload u)
      \<and> whole (hours_or_zero (estimated_hours t))
      \<and> \<bar>current_workload u\<bar> + \<bar>hours_or_zero (estimated_hours t)\<bar> \<le> B"
  then have t: "find (\<lambda>t. task_id t = tid) (tasks d) = Some t"
    and e: "\<not> has_key ''error'' (recommend_assignee ev d tid None)"
    and k: "has_key ''recommended_user_id'' (recommend_assignee ev d tid None)"
    and u: "user_by_id ev d (dict_get (recommend_assignee ev d tid None) ''recommended_user_id'')
              = Some u"
    and ex: "exact_upto ev B" and wl: "whole (current_workload u)"
    and wh: "whole (hours_or_zero (estimated_hours t))"
    and b: "\<bar>current_workload u\<bar> + \<bar>hours_or_zero (estimated_hours t)\<bar> \<le> B" by simp_all
  note r = assign_effect[OF t e k u ex wl wh b]
  show "assignee_of (snd (auto_distribute_task ev d tid True)) tid = Some (Some (user_id u))"
    by (rule r(1))
  show "load_of d (user_id u) = Some (current_workload u)" by (rule r(2))
  show "load_of (snd (auto_distribute_task ev d tid True)) (user_id u)
            = Some (current_workload u + hours_or_zero (estimated_hours t))" by (rule r(3))
  assume "user_id u \<noteq> 0 \<and> 0 \<le> current_workload u"
  with r(4)
  show "\<exists>d2. delete_task ev (snd (auto_distribute_task ev d tid True)) tid = Inr d2
                 \<and> load_of d2 (user_id u) = Some (current_workload u)" by blast
next
  assume h: "find (\<lambda>t. task_id t = tid') (tasks d0) = Some t0 \<and> assigned_to t0 = Some a \<and> a \<noteq> 0
      \<and> load_of d0 a = Some l
      \<and> exact_upto ev B \<and> whole l \<and> whole (hours_or_zero (estimated_hours t0))
      \<and> \<bar>l\<bar> + \<bar>hours_or_zero (estimated_hours t0)\<bar> \<le> B"
  then have f: "find (\<lambda>t. task_id t = tid') (tasks d0) = Some t0" and a: "assigned_to t0 = Some a"
    and a0: "a \<noteq> 0" and l: "load_of d0 a = Some l" and ex: "exact_upto ev B" and wl: "whole l"
    and wh: "whole (hours_or_zero (estimated_hours t0))"
    and b: "\<bar>l\<bar> + \<bar>hours_or_zero (estimated_hours t0)\<bar> \<le> B" by simp_all
  show "\<exists>d2. delete_task ev d0 tid' = Inr d2
          \<and> assignee_of d2 tid' = None
          \<and> load_of d2 a
              = Some (if truthy (estimated_hours t0) then max 0 (l - the (estimated_hours t0))
                      else l)
          \<and> (hours_or_zero (estimated_hours t0) \<le> l
                \<longrightarrow> load_of d2 a = Some (l - hours_or_zero (estimated_hours t0)))"
    by (rule delete_effect[OF f a a0 l ex wl wh b])
qed

theorem assign_then_delete_loads_witness:
  "find (\<lambda>t. task_id t = 1) (tasks unassigned_db) = Some (sample_task 1 URGENT None (Some 4))
   \<and> \<not> has_key ''error'' (recommend_assignee sample_env unassigned_db 1 None)
   \<and> has_key ''recommended_user_id'' (recommend_assignee sample_env unassigned_db 1 None)
   \<and> user_by_id sample_env unassigned_db
        (dict_get (recommend_assignee sample_env unassigned_db 1 None) ''recommended_user_id'')
       = Some sample_pedro
   \<and> exact_upto sample_env 2147483647
   \<and> load_of unassigned_db 3 = Some 10
   \<and> load_of (snd (auto_distribute_task sample_env unassigned_db 1 True)) 3 = Some 14
   \<and> (\<exists>d2. delete_task sample_env (snd (auto_distribute_task sample_env unassigned_db 1 True)) 1
               = Inr d2
          \<and> load_of d2 3 = Some 10)
   \<and> find (\<lambda>t. task_id t = 1) (tasks sample_db) = Some (sample_task 1 URGENT (Some 2) (Some 4))
   \<and> load_of sample_db 2 = Some 38
   \<and> (\<exists>d2. delete_task sample_env sample_db 1 = Inr d2 \<and> load_of d2 2 = Some 34)"
proof -
  have a: "find (\<lambda>t. task_id t = 1) (tasks unassigned_db) = Some (sample_task 1 URGENT None (Some 4))"
    by code_simp
  have b: "\<not> has_key ''error'' (recommend_assignee sample_env unassigned_db 1 None)" by code_simp
  have c: "has_key ''recommended_user_id'' (recommend_assignee sample_env unassigned_db 1 None)"
    by code_simp
  have e: "user_by_id sample_env unassigned_db
        (dict_get (recommend_assignee sample_env unassigned_db 1 None) ''recommended_user_id'')
       = Some sample_pedro" by code_simp
  have x: "exact_upto sample_env 2147483647" by (rule sample_env_exact)
  have f: "user_id sample_pedro = 3" "current_workload sample_pedro = 10"
    "hours_or_zero (estimated_hours (sample_task 1 URGENT None (Some 4))) = 4" by code_simp+
  have w: "whole (current_workload sample_pedro)"
    "whole (hours_or_zero (estimated_hours (sample_task 1 URGENT None (Some 4))))"
    "whole 38" "whole (hours_or_zero (estimated_hours (sample_task 1 URGENT (Some 2) (Some 4))))"
    by code_simp+
  have bd: "\<bar>current_workload sample_pedro\<bar>
              + \<bar>hours_or_zero (estimated_hours (sample_task 1 URGENT None (Some 4)))\<bar>
            \<le> 2147483647"
    "\<bar>38\<bar> + \<bar>hours_or_zero (estimated_hours (sample_task 1 URGENT (Some 2) (Some 4)))\<bar>
       \<le> (2147483647 :: rat)"
    by code_simp+
  have g: "find (\<lambda>t. task_id t = 1) (tasks sample_db) = Some (sample_task 1 URGENT (Some 2) (Some 4))"
    by code_simp
  have h: "assigned_to (sample_task 1 URGENT (Some 2) (Some 4)) = Some 2"
    "hours_or_zero (estimated_hours (sample_task 1 URGENT (Some 2) (Some 4))) = 4"
    "load_of sample_db 2 = Some 38" by code_simp+
  note th = assign_then_delete_loads[where tid = 1 and d = unassigned_db
      and t = "sample_task 1 URGENT None (Some 4)" and ev = sample_env and u = sample_pedro
      and B = 2147483647
      and tid' = 1 and ?d0.0 = sample_db and ?t0.0 = "sample_task 1 URGENT (Some 2) (Some 4)"
      and a = 2 and l = 38]
  from conjunct1[OF th] a b c e x w(1,2) bd(1)
  have p1: "load_of unassigned_db (user_id sample_pedro) = Some (current_workload sample_pedro)"
    and p2: "load_of (snd (auto_distribute_task sample_env unassigned_db 1 True)) (user_id sample_pedro)
            = Some (current_workload sample_pedro
                    + hours_or_zero (estimated_hours (sample_task 1 URGENT None (Some 4))))"
    and p3: "user_id sample_pedro \<noteq> 0 \<and> 0 \<le> current_workload sample_pedro \<longrightarrow>
              (\<exists>d2. delete_task sample_env (snd (auto_distribute_task sample_env unassigned_db 1 True)) 1
                       = Inr d2
                 \<and> load_of d2 (user_id sample_pedro) = Some (current_workload sample_pedro))"
    by blast+
  have "(2::int) \<noteq> 0" by simp
  with conjunct2[OF th] g h(1,3) x w(3,4) bd(2)
  have p4: "\<exists>d2. delete_task sample_env sample_db 1 = Inr d2
          \<and> (hours_or_zero (estimated_hours (sample_task 1 URGENT (Some 2) (Some 4))) \<le> 38
                \<longrightarrow> load_of d2 2
                    = Some (38 - hours_or_zero (estimated_hours (sample_task 1 URGENT (Some 2) (Some 4)))))"
    by blast
  from p4 h have q4: "\<exists>d2. delete_task sample_env sample_db 1 = Inr d2 \<and> load_of d2 2 = Some 34"
    by auto
  from p1 p2 p3 f have q: "load_of unassigned_db 3 = Some 10"
    "load_of (snd (auto_distribute_task sample_env unassigned_db 1 True)) 3 = Some 14"
    "\<exists>d2. delete_task sample_env (snd (auto_distribute_task sample_env unassigned_db 1 True)) 1
             = Inr d2
          \<and> load_of d2 3 = Some 10" by simp_all
  from a b c e x g h(3) q q4 show ?thesis by blast
qed

text \<open>
  Claim C7 as stated fails, in two ways. Deleting an item of 5 hours held by a person with
  a load of 2 hours leaves a load of 0, a decrease of 2. And the load is an integer column
  while the estimate is a float: on a store that rounds what it is given, assigning an
  item of 2.5 hours to a person with a load of 10 leaves 13, and deleting it then leaves
  11.
\<close>

theorem delete_clamps_load:
  "assignee_of clamped_db 1 = Some (Some 2) \<and> load_of clamped_db 2 = Some 2
   \<and> map estimated_hours (tasks clamped_db) = [Some 5]
   \<and> (case delete_task sample_env clamped_db 1 of
         Inr d2 \<Rightarrow> load_of d2 2 = Some 0 | Inl err \<Rightarrow> False)
   \<and> map estimated_hours (tasks fraction_db) = [Some (5 / 2)]
   \<and> load_of fraction_db 3 = Some 10
   \<and> assignee_of (snd (auto_distribute_task rounding_env fraction_db 1 True)) 1 = Some (Some 3)
   \<and> load_of (snd (auto_distribute_task rounding_env fraction_db 1 True)) 3 = Some 13
   \<and> (case delete_task rounding_env (snd (auto_distribute_task rounding_env fraction_db 1 True)) 1 of
         Inr d2 \<Rightarrow> load_of d2 3 = Some 11 | Inl err \<Rightarrow> False)"
  by code_simp

text \<open>
  Two paths change the assignee of an item and leave the previous holder's load as it
  was: \<^verbatim>\<open>update_task\<close> writes no load at all, and applying a recommendation
  for an item that is already held adds to the new holder only.
\<close>

lemma update_task_keeps_users:
  "update_task ev d current_user tid task_data = Inr d' \<Longrightarrow> users d' = users d"
  by (auto simp: update_task_def Let_def split: option.splits if_splits)

lemma update_task_reassign_example:
  "(case update_task sample_env sample_db sample_manager 1
           \<lparr>upd_title = None, upd_description = None, upd_status = None, upd_priority = None,
            upd_estimated_hours = None, upd_actual_hours = None, upd_assigned_to = Some 3\<rparr> of
      Inr d' \<Rightarrow> assignee_of d' 1 = Some (Some 3) \<and> load_of d' 2 = Some 38 \<and> load_of d' 3 = Some 10
    | Inl err \<Rightarrow> False)"
  by code_simp

lemma auto_distribute_held_item_example:
  "assignee_of sample_db 1 = Some (Some 2)
   \<and> assignee_of (snd (auto_distribute_task sample_env sample_db 1 True)) 1 = Some (Some 3)
   \<and> load_of (snd (auto_distribute_task sample_env sample_db 1 True)) 2 = Some 38
   \<and> load_of (snd (auto_distribute_task sample_env sample_db 1 True)) 3 = Some 14"
  by code_simp

end
